theory Spec2Isabelle
  imports Main "HOL-Library.Word"
begin

section \<open>The tsdb package of bench-routes: blocks, chains, chain sets\<close>

text \<open>
  The package keeps, per storage path, an in-memory slice of blocks that is merged into a
  JSON file by \<open>commit\<close>. The model below follows \<open>tsdb/db.go\<close> function by function.
  A Go \<open>string\<close> is a sequence of bytes and is modelled by \<open>string\<close>; \<open>int64\<close> and \<open>uint32\<close>
  are words; a \<open>panic\<close> is the left summand of a result, together with the files and the log
  as the panic leaves them. The mutexes are not modelled: every
  operation is run to completion before the next one starts, which is what the locks
  enforce on one chain.
\<close>

subsection \<open>Errors and panics\<close>

datatype go_error =
    ENOENT | EISDIR | ENOTDIR
  | ErrorString string
  | UnsupportedTypeError
  | DecodeError

datatype panic = PanicError go_error | NilPointerDereference

subsection \<open>Slices\<close>

text \<open>
  A Go slice is either \<open>nil\<close> or holds a sequence of elements; \<open>len\<close> and \<open>append\<close> work on
  both, but \<open>encoding/json\<close> writes \<open>null\<close> for the first and \<open>[]\<close> for an empty second.
\<close>

datatype 'a slice = nil | Slice "'a list"

fun elems :: "'a slice \<Rightarrow> 'a list" where
  "elems nil = []"
| "elems (Slice xs) = xs"

definition len :: "'a slice \<Rightarrow> int" where
  "len s = int (length (elems s))"

text \<open>\<open>append(s, xs...)\<close>: with nothing to add the slice itself comes back, \<open>nil\<close> included.\<close>

definition go_append :: "'a slice \<Rightarrow> 'a list \<Rightarrow> 'a slice" where
  "go_append s xs = (if xs = [] then s else Slice (elems s @ xs))"

subsection \<open>The functions of package strings that the code calls\<close>

text \<open>\<open>strings.Split(s, sep)\<close> for a separator of one byte, as in \<open>strings.Split(path, "/")\<close>.\<close>

fun strings_Split :: "string \<Rightarrow> char \<Rightarrow> string list" where
  "strings_Split [] sep = [[]]"
| "strings_Split (x # xs) sep =
     (if x = sep then [] # strings_Split xs sep
      else (case strings_Split xs sep of
              [] \<Rightarrow> [[x]]
            | y # ys \<Rightarrow> (x # y) # ys))"

fun strings_Join :: "string list \<Rightarrow> string \<Rightarrow> string" where
  "strings_Join [] sep = []"
| "strings_Join [a] sep = a"
| "strings_Join (a # b # rest) sep = a @ sep @ strings_Join (b # rest) sep"

text \<open>\<open>strings.ReplaceAll(s, old, new)\<close> for \<open>old\<close> of one byte.\<close>

definition strings_ReplaceAll :: "string \<Rightarrow> char \<Rightarrow> string \<Rightarrow> string" where
  "strings_ReplaceAll s old new = concat (map (\<lambda>c. if c = old then new else [c]) s)"

subsection \<open>The file system, as far as os and ioutil are used\<close>

text \<open>
  A path names at most one node, a regular file with its bytes or a directory. Paths are
  compared as written (no symbolic links, no \<open>.\<close> or \<open>..\<close>), permissions are not checked,
  and the empty path names nothing, as on every system Go runs on. A path without a
  directory part lives in the working directory, which always exists.
\<close>

datatype node = File string | Dir

type_synonym filesys = "string \<Rightarrow> node option"

definition os_Stat :: "filesys \<Rightarrow> string \<Rightarrow> go_error + node" where
  "os_Stat fs path =
     (if path = [] then Inl ENOENT
      else (case fs path of None \<Rightarrow> Inl ENOENT | Some n \<Rightarrow> Inr n))"

definition ioutil_ReadFile :: "filesys \<Rightarrow> string \<Rightarrow> go_error + string" where
  "ioutil_ReadFile fs path =
     (case os_Stat fs path of
        Inl e \<Rightarrow> Inl e
      | Inr Dir \<Rightarrow> Inl EISDIR
      | Inr (File d) \<Rightarrow> Inr d)"

text \<open>The directory part of a path: everything before its last \<open>/\<close>, empty when there is none.\<close>

definition dir_part :: "string \<Rightarrow> string" where
  "dir_part path = strings_Join (butlast (strings_Split path (CHR ''/''))) ''/''"

text \<open>
  \<open>ioutil.WriteFile\<close> creates or truncates the file. It fails on the empty path, on a
  directory, and when the directory part is not an existing directory.
\<close>

definition ioutil_WriteFile :: "filesys \<Rightarrow> string \<Rightarrow> string \<Rightarrow> go_error + filesys" where
  "ioutil_WriteFile fs path data =
     (if path = [] then Inl ENOENT
      else if fs path = Some Dir then Inl EISDIR
      else if dir_part path \<noteq> [] \<and> fs (dir_part path) = None then Inl ENOENT
      else if dir_part path \<noteq> [] \<and> fs (dir_part path) \<noteq> Some Dir then Inl ENOTDIR
      else Inr (fs(path := Some (File data))))"

text \<open>
  \<open>os.MkdirAll\<close> creates the directory and every missing ancestor. It fails on the empty
  path (there is nothing to create) and when the path or an ancestor is a regular file; the
  error comes with the file system as the call leaves it, the ancestors made so far included.
\<close>

fun mkdirs :: "filesys \<Rightarrow> string list \<Rightarrow> (go_error \<times> filesys) + filesys" where
  "mkdirs fs [] = Inr fs"
| "mkdirs fs (d # ds) =
     (if d = [] then mkdirs fs ds
      else (case fs d of
              Some (File _) \<Rightarrow> Inl (ENOTDIR, fs)
            | _ \<Rightarrow> mkdirs (fs(d := Some Dir)) ds))"

text \<open>The ancestors of a path, outermost first, the path itself last.\<close>

definition ancestors :: "string \<Rightarrow> string list" where
  "ancestors path =
     map (\<lambda>n. strings_Join (take n (strings_Split path (CHR ''/''))) ''/'')
       [1 ..< Suc (length (strings_Split path (CHR ''/'')))]"

definition os_MkdirAll :: "filesys \<Rightarrow> string \<Rightarrow> (go_error \<times> filesys) + filesys" where
  "os_MkdirAll fs path = (if path = [] then Inl (ENOENT, fs) else mkdirs fs (ancestors path))"

subsection \<open>Decimal numerals and UTF-8\<close>

text \<open>\<open>strconv.FormatInt(n, 10)\<close>, which is also how \<open>encoding/json\<close> writes an integer.\<close>

fun digits :: "nat \<Rightarrow> string" where
  "digits n =
     (if n < 10 then [''0123456789'' ! n]
      else digits (n div 10) @ [''0123456789'' ! (n mod 10)])"

declare digits.simps [simp del]

definition strconv_FormatInt :: "int \<Rightarrow> string" where
  "strconv_FormatInt n = (if n < 0 then CHR ''-'' # digits (nat (- n)) else digits (nat n))"

text \<open>
  The conversion \<open>string(r)\<close> of a rune: the UTF-8 encoding of the code point \<open>r\<close>, and of
  U+FFFD when \<open>r\<close> is not a valid code point (negative, above U+10FFFF or a surrogate).
\<close>

definition valid_rune :: "int \<Rightarrow> bool" where
  "valid_rune r = (0 \<le> r \<and> r \<le> 0x10FFFF \<and> \<not> (0xD800 \<le> r \<and> r \<le> 0xDFFF))"

definition utf8_EncodeRune :: "nat \<Rightarrow> string" where
  "utf8_EncodeRune r =
     (if r < 0x80 then [char_of r]
      else if r < 0x800 then [char_of (0xC0 + r div 0x40), char_of (0x80 + r mod 0x40)]
      else if r < 0x10000 then
        [char_of (0xE0 + r div 0x1000), char_of (0x80 + r div 0x40 mod 0x40),
         char_of (0x80 + r mod 0x40)]
      else
        [char_of (0xF0 + r div 0x40000), char_of (0x80 + r div 0x1000 mod 0x40),
         char_of (0x80 + r div 0x40 mod 0x40), char_of (0x80 + r mod 0x40)])"

definition string_of_rune :: "32 word \<Rightarrow> string" where
  "string_of_rune r =
     (if valid_rune (sint r) then utf8_EncodeRune (nat (sint r)) else utf8_EncodeRune 0xFFFD)"

text \<open>
  \<open>utf8.DecodeRuneInString\<close>: the first code point of a string and the number of bytes it
  takes; \<open>(U+FFFD, 1)\<close> for a byte that starts no valid encoding and \<open>(U+FFFD, 0)\<close> for the
  empty string. The second byte of a three or four byte encoding is restricted so that
  overlong forms, surrogates and values above U+10FFFF are rejected.
\<close>

definition cont :: "nat \<Rightarrow> bool" where
  "cont b = (0x80 \<le> b \<and> b \<le> 0xBF)"

definition second_lo :: "nat \<Rightarrow> nat" where
  "second_lo b0 = (if b0 = 0xE0 then 0xA0 else if b0 = 0xF0 then 0x90 else 0x80)"

definition second_hi :: "nat \<Rightarrow> nat" where
  "second_hi b0 = (if b0 = 0xED then 0x9F else if b0 = 0xF4 then 0x8F else 0xBF)"

definition decode_bytes :: "nat list \<Rightarrow> int \<times> nat" where
  "decode_bytes bs =
     (case bs of
        [] \<Rightarrow> (0xFFFD, 0)
      | b0 # r0 \<Rightarrow>
          if b0 < 0x80 then (int b0, 1)
          else if b0 < 0xC2 \<or> 0xF4 < b0 then (0xFFFD, 1)
          else (case r0 of
              [] \<Rightarrow> (0xFFFD, 1)
            | b1 # r1 \<Rightarrow>
                if b1 < second_lo b0 \<or> second_hi b0 < b1 then (0xFFFD, 1)
                else if b0 < 0xE0 then (int ((b0 - 0xC0) * 0x40 + (b1 - 0x80)), 2)
                else (case r1 of
                    [] \<Rightarrow> (0xFFFD, 1)
                  | b2 # r2 \<Rightarrow>
                      if \<not> cont b2 then (0xFFFD, 1)
                      else if b0 < 0xF0 then
                        (int ((b0 - 0xE0) * 0x1000 + (b1 - 0x80) * 0x40 + (b2 - 0x80)), 3)
                      else (case r2 of
                          [] \<Rightarrow> (0xFFFD, 1)
                        | b3 # r3 \<Rightarrow>
                            if \<not> cont b3 then (0xFFFD, 1)
                            else
                              (int ((b0 - 0xF0) * 0x40000 + (b1 - 0x80) * 0x1000
                                    + (b2 - 0x80) * 0x40 + (b3 - 0x80)), 4)))))"

definition utf8_DecodeRuneInString :: "string \<Rightarrow> int \<times> nat" where
  "utf8_DecodeRuneInString s = decode_bytes (map of_char s)"

subsection \<open>encoding/json\<close>

text \<open>
  \<open>json.Marshal\<close> walks a value by reflection. The values it can meet are given by
  \<open>go_value\<close>; channels, functions and complex numbers make it fail with an
  \<open>UnsupportedTypeError\<close>. Two parts of the library are left open and taken as parameters:
  how the bytes of a string are escaped inside a JSON string literal, and the decoder
  \<open>json.Unmarshal\<close> into a \<open>[]Block\<close>.
\<close>

datatype go_value =
    GoString string
  | GoInt64 "64 word"
  | GoStruct "(string \<times> go_value) list"
  | GoSlice "go_value list option"
  | GoChan | GoFunc | GoComplex

fun collect :: "(go_error + string) list \<Rightarrow> go_error + string list" where
  "collect [] = Inr []"
| "collect (Inl e # rs) = Inl e"
| "collect (Inr s # rs) = (case collect rs of Inl e \<Rightarrow> Inl e | Inr ss \<Rightarrow> Inr (s # ss))"

fun json_Marshal :: "(string \<Rightarrow> string) \<Rightarrow> go_value \<Rightarrow> go_error + string" where
  "json_Marshal q (GoString s) = Inr (q s)"
| "json_Marshal q (GoInt64 n) = Inr (strconv_FormatInt (sint n))"
| "json_Marshal q (GoStruct fields) =
     (case collect (map (\<lambda>f. case json_Marshal q (snd f) of
                                 Inl e \<Rightarrow> Inl e
                               | Inr v \<Rightarrow> Inr ([CHR 0x22] @ fst f @ [CHR 0x22] @ '':'' @ v)) fields) of
        Inl e \<Rightarrow> Inl e
      | Inr members \<Rightarrow> Inr (''{'' @ strings_Join members '','' @ ''}''))"
| "json_Marshal q (GoSlice None) = Inr ''null''"
| "json_Marshal q (GoSlice (Some vs)) =
     (case collect (map (json_Marshal q) vs) of
        Inl e \<Rightarrow> Inl e
      | Inr items \<Rightarrow> Inr (''['' @ strings_Join items '','' @ '']''))"
| "json_Marshal q GoChan = Inl UnsupportedTypeError"
| "json_Marshal q GoFunc = Inl UnsupportedTypeError"
| "json_Marshal q GoComplex = Inl UnsupportedTypeError"

subsection \<open>Block\<close>

record Block =
  Datapoint :: string
  NormalizedTime :: "64 word"
  Type :: string
  Timestamp :: string

text \<open>What reflection shows of a \<open>Block\<close>: its four fields, in order, under their JSON tags.\<close>

definition block_value :: "Block \<Rightarrow> go_value" where
  "block_value b =
     GoStruct [(''datapoint'', GoString (Datapoint b)),
               (''normalized-time'', GoInt64 (NormalizedTime b)),
               (''type'', GoString (Type b)),
               (''timestamp'', GoString (Timestamp b))]"

definition blocks_value :: "Block slice \<Rightarrow> go_value" where
  "blocks_value a =
     (case a of nil \<Rightarrow> GoSlice None | Slice bs \<Rightarrow> GoSlice (Some (map block_value bs)))"

text \<open>The two open parts of \<open>encoding/json\<close>.\<close>

record json =
  quote :: "string \<Rightarrow> string"
  json_Unmarshal :: "string \<Rightarrow> go_error + Block slice"

definition Encode :: "json \<Rightarrow> Block \<Rightarrow> panic + string" where
  "Encode J b =
     (case json_Marshal (quote J) (block_value b) of
        Inl err \<Rightarrow> Inl (PanicError err)
      | Inr bbyte \<Rightarrow> Inr bbyte)"

definition GetType :: "Block \<Rightarrow> string" where
  "GetType b = Type b"

definition GetDatapointEnc :: "Block \<Rightarrow> string" where
  "GetDatapointEnc b = Datapoint b"

text \<open>\<open>rune(b.NormalizedTime)\<close> keeps the low 32 bits of the \<open>int64\<close>.\<close>

definition GetNormalizedTimeStringified :: "Block \<Rightarrow> string" where
  "GetNormalizedTimeStringified b = string_of_rune (ucast (NormalizedTime b))"

definition GetNormalizedTime :: "Block \<Rightarrow> 64 word" where
  "GetNormalizedTime b = NormalizedTime b"

definition GetTimeStamp :: "Block \<Rightarrow> string" where
  "GetTimeStamp b = Timestamp b"

subsection \<open>Chain and ChainReadOnly\<close>

record Chain =
  Path :: string
  Name :: string
  Route :: string
  Chain :: "Block slice"
  LengthElements :: int
  containsNewBlocks :: bool
  inActiveIterations :: "32 word"

record ChainReadOnly =
  ro_Path :: string
  ro_Chain :: "Block slice"

text \<open>The state outside the chains: the file system and what has been logged.\<close>

record world =
  files :: filesys
  logged :: "string list"

definition log_Infof :: "world \<Rightarrow> string \<Rightarrow> world" where
  "log_Infof w msg = w\<lparr>logged := logged w @ [msg]\<rparr>"

definition log_Errorf :: "world \<Rightarrow> string \<Rightarrow> world" where
  "log_Errorf w msg = w\<lparr>logged := logged w @ [msg]\<rparr>"

definition filterChainPath :: "string \<Rightarrow> string" where
  "filterChainPath name =
     strings_ReplaceAll (strings_ReplaceAll name (CHR ''.'') ''___'') (CHR ''/'') ''_''"

definition NewChain :: "string \<Rightarrow> Chain" where
  "NewChain path =
     \<lparr>Path = path, Name = filterChainPath path, Route = [], Chain = Slice [],
      LengthElements = 0, containsNewBlocks = True, inActiveIterations = 0\<rparr>"

definition ReadOnly :: "string \<Rightarrow> ChainReadOnly" where
  "ReadOnly path = \<lparr>ro_Path = path, ro_Chain = nil\<rparr>"

subsection \<open>Storage helpers\<close>

text \<open>
  \<open>parse\<close> returns a pointer to the file's text together with an error; exactly one of the
  two is \<open>nil\<close>. Both are kept, since \<open>Refresh\<close> goes on with the pointer whatever the error.
\<close>

definition parse :: "filesys \<Rightarrow> string \<Rightarrow> string option \<times> go_error option" where
  "parse fs path =
     (case ioutil_ReadFile fs path of
        Inl err \<Rightarrow> (None, Some (ErrorString ''file not existed. create a new chain''))
      | Inr res \<Rightarrow> (Some res, None))"

definition parseToJSON :: "json \<Rightarrow> Block slice \<Rightarrow> panic + string" where
  "parseToJSON J a =
     (case json_Marshal (quote J) (blocks_value a) of
        Inl e \<Rightarrow> Inl (PanicError e)
      | Inr j \<Rightarrow> Inr j)"

text \<open>\<open>loadFromStorage\<close> dereferences its argument before anything else.\<close>

definition loadFromStorage :: "json \<Rightarrow> string option \<Rightarrow> panic + Block slice" where
  "loadFromStorage J raw =
     (case raw of
        None \<Rightarrow> Inl NilPointerDereference
      | Some b \<Rightarrow>
          (case json_Unmarshal J b of
             Inl e \<Rightarrow> Inl (PanicError e)
           | Inr inst \<Rightarrow> Inr inst))"

text \<open>
  \<open>mergeBlocksSlice\<close> overwrites the slice behind its first pointer, which in \<open>commit\<close> is
  the fresh result of \<open>loadFromStorage\<close>; nothing else sees it, so only the result is kept.
\<close>

definition mergeBlocksSlice :: "Block slice \<Rightarrow> Block slice \<Rightarrow> Block slice" where
  "mergeBlocksSlice oldSlice newSlice = go_append oldSlice (elems newSlice)"

definition checkAndCreatePath :: "filesys \<Rightarrow> string \<Rightarrow> (panic \<times> filesys) + filesys" where
  "checkAndCreatePath fs path =
     (let array = strings_Split path (CHR ''/'');
          array = butlast array;
          path = strings_Join array ''/''
      in case os_Stat fs path of
           Inr _ \<Rightarrow> Inr fs
         | Inl err \<Rightarrow>
             (case os_MkdirAll fs path of
                Inl (e, fs') \<Rightarrow> Inl (PanicError e, fs')
              | Inr fs' \<Rightarrow> Inr fs'))"

definition saveToHDD ::
  "filesys \<Rightarrow> string \<Rightarrow> string \<Rightarrow> (panic \<times> filesys) + (filesys \<times> go_error option)" where
  "saveToHDD fs path data =
     (case checkAndCreatePath fs path of
        Inl p \<Rightarrow> Inl p
      | Inr fs1 \<Rightarrow>
          (case ioutil_WriteFile fs1 path data of
             Inl e \<Rightarrow> Inr (fs1, Some e)
           | Inr fs2 \<Rightarrow> Inr (fs2, None)))"

subsection \<open>The operations of a chain\<close>

definition Init :: "world \<Rightarrow> Chain \<Rightarrow> (panic \<times> world) + (world \<times> Chain)" where
  "Init w c =
     (case snd (parse (files w) (Path c)) of
        Some err \<Rightarrow>
          (let w = log_Infof w (''creating in-memory chain: '' @ Name c @ [CHR 0x0A]);
               c = c\<lparr>LengthElements := 0\<rparr>;
               c = c\<lparr>Chain := Slice []\<rparr>
           in case saveToHDD (files w) (Path c) ''[]'' of
                Inl (p, fs) \<Rightarrow> Inl (p, w\<lparr>files := fs\<rparr>)
              | Inr (fs, Some err) \<Rightarrow> Inl (PanicError err, w\<lparr>files := fs\<rparr>)
              | Inr (fs, None) \<Rightarrow> Inr (w\<lparr>files := fs\<rparr>, c))
      | None \<Rightarrow>
          (let c = c\<lparr>Chain := Slice []\<rparr>;
               c = c\<lparr>LengthElements := len (Chain c)\<rparr>
           in Inr (w, c)))"

definition Append :: "Chain \<Rightarrow> Block \<Rightarrow> Chain" where
  "Append c b =
     (let c = c\<lparr>Chain := go_append (Chain c) [b]\<rparr>;
          c = c\<lparr>LengthElements := len (Chain c)\<rparr>;
          c = c\<lparr>containsNewBlocks := True\<rparr>
      in if inActiveIterations c \<noteq> 0 then c\<lparr>inActiveIterations := 0\<rparr> else c)"

definition commit :: "json \<Rightarrow> world \<Rightarrow> Chain \<Rightarrow> (panic \<times> world) + (world \<times> Chain)" where
  "commit J w c =
     (case parse (files w) (Path c) of
        (pathPointer, Some err) \<Rightarrow> Inl (PanicError err, w)
      | (pathPointer, None) \<Rightarrow>
          (case loadFromStorage J pathPointer of
             Inl p \<Rightarrow> Inl (p, w)
           | Inr existingBlocks \<Rightarrow>
               (let mergedBlocks = mergeBlocksSlice existingBlocks (Chain c)
                in case parseToJSON J mergedBlocks of
                     Inl p \<Rightarrow> Inl (p, w)
                   | Inr bytes \<Rightarrow>
                       (case saveToHDD (files w) (Path c) bytes of
                          Inl (p, fs) \<Rightarrow> Inl (p, w\<lparr>files := fs\<rparr>)
                        | Inr (fs, Some err) \<Rightarrow> Inl (PanicError err, w\<lparr>files := fs\<rparr>)
                        | Inr (fs, None) \<Rightarrow>
                            Inr (w\<lparr>files := fs\<rparr>,
                                 c\<lparr>Chain := Slice [], containsNewBlocks := False\<rparr>)))))"

definition Refresh ::
  "json \<Rightarrow> world \<Rightarrow> ChainReadOnly \<Rightarrow> (panic \<times> world) + (world \<times> ChainReadOnly)" where
  "Refresh J w c =
     (let (response, err) = parse (files w) (ro_Path c);
          w = (if err \<noteq> None
               then log_Errorf w (''error reading the chain: '' @ ro_Path c @ [CHR 0x0A])
               else w)
      in case loadFromStorage J response of
           Inl p \<Rightarrow> Inl (p, w)
         | Inr blocks \<Rightarrow> Inr (w, c\<lparr>ro_Chain := blocks\<rparr>))"

definition BlockStream :: "ChainReadOnly \<Rightarrow> Block slice" where
  "BlockStream c = ro_Chain c"

subsection \<open>ChainSet\<close>

text \<open>
  The map of a chain set holds pointers to chains, so two names may share one chain. A
  pointer is \<open>None\<close> for \<open>nil\<close> or the address of a chain in the store; \<open>Cmap\<close> is the map
  that \<open>NewChainSet\<close> allocates. The channel and the lock of the set are not modelled.
\<close>

type_synonym chain_ptr = "nat option"

type_synonym store = "nat \<Rightarrow> Chain option"

record ChainSet =
  FlushDuration :: int
  flushType :: int
  Cmap :: "string \<Rightarrow> chain_ptr option"

definition FlushAsTime :: int where
  "FlushAsTime = 0"

definition FlushAsSpace :: int where
  "FlushAsSpace = 1"

definition NewChainSet :: "int \<Rightarrow> int \<Rightarrow> ChainSet" where
  "NewChainSet ft flushDuration =
     \<lparr>FlushDuration = flushDuration, flushType = ft, Cmap = (\<lambda>name. None)\<rparr>"

definition Get :: "ChainSet \<Rightarrow> string \<Rightarrow> chain_ptr \<times> bool" where
  "Get cs name =
     (case Cmap cs name of
        None \<Rightarrow> (None, False)
      | Some chainAddress \<Rightarrow> (chainAddress, True))"

definition Register :: "ChainSet \<Rightarrow> string \<Rightarrow> chain_ptr \<Rightarrow> ChainSet" where
  "Register cs name chainAddress = cs\<lparr>Cmap := (Cmap cs)(name := Some chainAddress)\<rparr>"

text \<open>Reading through a chain pointer: \<open>nil\<close> and a missing map entry (also \<open>nil\<close>) panic.\<close>

definition deref :: "store \<Rightarrow> chain_ptr \<Rightarrow> panic + (nat \<times> Chain)" where
  "deref h p =
     (case p of
        None \<Rightarrow> Inl NilPointerDereference
      | Some a \<Rightarrow> (case h a of None \<Rightarrow> Inl NilPointerDereference | Some c \<Rightarrow> Inr (a, c)))"

definition ChainSet_Append :: "ChainSet \<Rightarrow> store \<Rightarrow> string \<Rightarrow> Block \<Rightarrow> panic + (store \<times> chain_ptr)" where
  "ChainSet_Append cs h name block =
     (case deref h (case Cmap cs name of None \<Rightarrow> None | Some p \<Rightarrow> p) of
        Inl p \<Rightarrow> Inl p
      | Inr (a, c) \<Rightarrow> Inr (h(a := Some (Append c block)), Some a))"

text \<open>
  One pass of the scheduler over a chain, the body of the \<open>range\<close> loop in \<open>Run\<close>, and the
  loop itself over the pointers of the map in the order the runtime hands them out.
\<close>

definition Run_chain :: "json \<Rightarrow> world \<Rightarrow> Chain \<Rightarrow> (panic \<times> world) + (world \<times> Chain)" where
  "Run_chain J w chain =
     (if containsNewBlocks chain then commit J w chain
      else Inr (w, chain\<lparr>inActiveIterations := inActiveIterations chain + 1\<rparr>))"

fun Run_range ::
  "json \<Rightarrow> world \<Rightarrow> store \<Rightarrow> chain_ptr list \<Rightarrow> (panic \<times> world) + (world \<times> store)" where
  "Run_range J w h [] = Inr (w, h)"
| "Run_range J w h (p # ps) =
     (case deref h p of
        Inl e \<Rightarrow> Inl (e, w)
      | Inr (a, chain) \<Rightarrow>
          (case Run_chain J w chain of
             Inl e \<Rightarrow> Inl e
           | Inr (w', chain') \<Rightarrow> Run_range J w' (h(a := Some chain')) ps))"

text \<open>
  One iteration of the loop that \<open>Run\<close> starts for \<open>FlushAsTime\<close>; \<open>names\<close> lists the keys of
  the map in the order of this iteration (a name that is not a key is not visited). For any
  other flush type \<open>Run\<close> starts nothing.
\<close>

definition Run_iteration ::
  "json \<Rightarrow> ChainSet \<Rightarrow> world \<Rightarrow> store \<Rightarrow> string list \<Rightarrow> (panic \<times> world) + (world \<times> store)" where
  "Run_iteration J cs w h names =
     (if flushType cs = FlushAsTime
      then Run_range J w h (List.map_filter (Cmap cs) names)
      else Inr (w, h))"

subsection \<open>Notions used to state the properties\<close>

text \<open>The JSON object that \<open>json.Marshal\<close> writes for a block.\<close>

definition block_json :: "(string \<Rightarrow> string) \<Rightarrow> Block \<Rightarrow> string" where
  \<open>block_json q b =
     ''{"datapoint":'' @ q (Datapoint b) @
     '',"normalized-time":'' @ strconv_FormatInt (sint (NormalizedTime b)) @
     '',"type":'' @ q (Type b) @
     '',"timestamp":'' @ q (Timestamp b) @ ''}''\<close>

text \<open>
  The blocks persisted under a path: what \<open>loadFromStorage (parse path)\<close> yields, the very
  reading that \<open>commit\<close> and \<open>Refresh\<close> perform; \<open>None\<close> when that reading panics.
\<close>

definition persisted :: "json \<Rightarrow> filesys \<Rightarrow> string \<Rightarrow> Block list option" where
  "persisted J fs path =
     (case loadFromStorage J (fst (parse fs path)) of
        Inl _ \<Rightarrow> None
      | Inr s \<Rightarrow> Some (elems s))"

text \<open>The decoder gives back the blocks of a slice from the text the encoder writes for it.\<close>

definition roundtrips :: "json \<Rightarrow> Block slice \<Rightarrow> bool" where
  "roundtrips J a =
     (case parseToJSON J a of
        Inl _ \<Rightarrow> False
      | Inr t \<Rightarrow>
          (case json_Unmarshal J t of
             Inl _ \<Rightarrow> False
           | Inr a' \<Rightarrow> elems a' = elems a))"

text \<open>
  A string that consists of exactly one UTF-8 encoded code point \<open>r\<close>: \<open>r\<close> is a valid code
  point, the string is its encoding, and decoding the string gives \<open>r\<close> and uses all its bytes.
\<close>

definition single_rune :: "string \<Rightarrow> int \<Rightarrow> bool" where
  "single_rune s r =
     (valid_rune r \<and> s = utf8_EncodeRune (nat r) \<and> utf8_DecodeRuneInString s = (r, length s))"

text \<open>Sequences of \<open>Append\<close> and \<open>commit\<close> on one chain; a panic ends the run.\<close>

datatype chain_op = DoAppend Block | DoCommit

fun apply_op ::
  "json \<Rightarrow> world \<Rightarrow> Chain \<Rightarrow> chain_op \<Rightarrow> (panic \<times> world) + (world \<times> Chain)" where
  "apply_op J w c (DoAppend b) = Inr (w, Append c b)"
| "apply_op J w c DoCommit = commit J w c"

fun run_ops ::
  "json \<Rightarrow> world \<Rightarrow> Chain \<Rightarrow> chain_op list \<Rightarrow> (panic \<times> world) + (world \<times> Chain)" where
  "run_ops J w c [] = Inr (w, c)"
| "run_ops J w c (x # xs) =
     (case apply_op J w c x of
        Inl p \<Rightarrow> Inl p
      | Inr (w', c') \<Rightarrow> run_ops J w' c' xs)"


text \<open>A pointer to a chain that the scheduler finds without new blocks.\<close>

definition clean_at :: "store \<Rightarrow> chain_ptr \<Rightarrow> bool" where
  "clean_at h p = (case deref h p of Inl _ \<Rightarrow> False | Inr (a, c) \<Rightarrow> \<not> containsNewBlocks c)"

subsection \<open>An instance of encoding/json\<close>

text \<open>
  The two open parts of \<open>encoding/json\<close>, written out for running the model. The encoder of
  string literals follows the library: a quote or a backslash gets a backslash in front;
  line feed, carriage return and tab become a backslash and \<open>n\<close>, \<open>r\<close> or \<open>t\<close>; the other
  bytes below 0x20 and the characters \<open><\<close>, \<open>>\<close> and \<open>&\<close> become a backslash, \<open>u00\<close> and two
  hexadecimal digits; U+2028 and U+2029 become a backslash and \<open>u2028\<close> or \<open>u2029\<close>; every
  byte that is not part of a valid UTF-8 encoding becomes a backslash and \<open>ufffd\<close>; all else
  is copied (releases of the library differ only in how they write backspace and form
  feed, which are read back alike). The decoder reads string literals the way the library
  does (escapes, surrogate pairs, U+FFFD for what is not UTF-8); of the texts it accepts
  only those in the layout the encoder writes: \<open>null\<close>, or an array of objects with the
  four members of a block in the order of the fields and no white space.
\<close>

definition hex_digit :: "nat \<Rightarrow> char" where
  "hex_digit n = ''0123456789abcdef'' ! n"

definition quote_ascii :: "char \<Rightarrow> string" where
  "quote_ascii c =
     (if c = CHR 0x22 \<or> c = CHR 0x5C then [CHR 0x5C, c]
      else if c = CHR 0x0A then [CHR 0x5C, CHR ''n'']
      else if c = CHR 0x0D then [CHR 0x5C, CHR ''r'']
      else if c = CHR 0x09 then [CHR 0x5C, CHR ''t'']
      else if of_char c < (0x20::nat) \<or> c = CHR ''<'' \<or> c = CHR ''>'' \<or> c = CHR ''&'' then
        [CHR 0x5C, CHR ''u'', CHR ''0'', CHR ''0'',
         hex_digit (of_char c div 16), hex_digit (of_char c mod 16)]
      else [c])"

function go_quote_body :: "string \<Rightarrow> string" where
  "go_quote_body [] = []"
| "go_quote_body (c # cs) =
     (if of_char c < (0x80::nat) then quote_ascii c @ go_quote_body cs
      else (case utf8_DecodeRuneInString (c # cs) of
              (r, width) \<Rightarrow>
                if r = 0xFFFD \<and> width = 1 then
                  [CHR 0x5C, CHR ''u'', CHR ''f'', CHR ''f'', CHR ''f'', CHR ''d'']
                    @ go_quote_body cs
                else if r = 0x2028 \<or> r = 0x2029 then
                  [CHR 0x5C, CHR ''u'', CHR ''2'', CHR ''0'', CHR ''2'',
                   hex_digit (nat r mod 16)] @ go_quote_body (drop (width - 1) cs)
                else take width (c # cs) @ go_quote_body (drop (width - 1) cs)))"
  by pat_completeness auto
termination
  by (relation "measure length") auto

definition go_quote :: "string \<Rightarrow> string" where
  "go_quote s = [CHR 0x22] @ go_quote_body s @ [CHR 0x22]"

definition hex_val :: "char \<Rightarrow> nat option" where
  "hex_val c =
     (let n = of_char c :: nat
      in if 48 \<le> n \<and> n \<le> 57 then Some (n - 48)
         else if 97 \<le> n \<and> n \<le> 102 then Some (n - 87)
         else if 65 \<le> n \<and> n \<le> 70 then Some (n - 55)
         else None)"

definition hex4 :: "string \<Rightarrow> nat option" where
  "hex4 s =
     (case map hex_val s of
        [Some w, Some x, Some y, Some z] \<Rightarrow> Some (((w * 16 + x) * 16 + y) * 16 + z)
      | _ \<Rightarrow> None)"

definition escape_char :: "char \<Rightarrow> char option" where
  "escape_char e =
     (if e = CHR 0x22 \<or> e = CHR 0x5C \<or> e = CHR ''/'' then Some e
      else if e = CHR ''b'' then Some (CHR 0x08)
      else if e = CHR ''f'' then Some (CHR 0x0C)
      else if e = CHR ''n'' then Some (CHR 0x0A)
      else if e = CHR ''r'' then Some (CHR 0x0D)
      else if e = CHR ''t'' then Some (CHR 0x09)
      else None)"

definition prepend :: "string \<Rightarrow> (string \<times> string) option \<Rightarrow> (string \<times> string) option" where
  "prepend p r = map_option (\<lambda>(s, t). (p @ s, t)) r"

function go_unquote_body :: "string \<Rightarrow> (string \<times> string) option" where
  "go_unquote_body [] = None"
| "go_unquote_body (c # cs) =
     (if c = CHR 0x22 then Some ([], cs)
      else if c = CHR 0x5C then
        (case cs of
           [] \<Rightarrow> None
         | e # es \<Rightarrow>
             if e = CHR ''u'' then
               (case hex4 (take 4 es) of
                  None \<Rightarrow> None
                | Some n \<Rightarrow>
                    (case (if 0xD800 \<le> n \<and> n < 0xDC00 \<and> take 2 (drop 4 es) = [CHR 0x5C, CHR ''u'']
                           then hex4 (take 4 (drop 6 es)) else None) of
                       Some m \<Rightarrow>
                         if 0xDC00 \<le> m \<and> m < 0xE000 then
                           prepend (utf8_EncodeRune (0x10000 + (n - 0xD800) * 0x400 + (m - 0xDC00)))
                             (go_unquote_body (drop 10 es))
                         else prepend (string_of_rune (of_nat n)) (go_unquote_body (drop 4 es))
                     | None \<Rightarrow> prepend (string_of_rune (of_nat n)) (go_unquote_body (drop 4 es))))
             else (case escape_char e of
                     None \<Rightarrow> None
                   | Some d \<Rightarrow> prepend [d] (go_unquote_body es)))
      else if of_char c < (0x20::nat) then None
      else if of_char c < (0x80::nat) then prepend [c] (go_unquote_body cs)
      else (case utf8_DecodeRuneInString (c # cs) of
              (r, width) \<Rightarrow>
                if r = 0xFFFD \<and> width = 1 then
                  prepend (utf8_EncodeRune 0xFFFD) (go_unquote_body cs)
                else prepend (take width (c # cs)) (go_unquote_body (drop (width - 1) cs))))"
  by pat_completeness auto
termination
  by (relation "measure length") auto

definition strip_prefix :: "string \<Rightarrow> string \<Rightarrow> string option" where
  "strip_prefix p s = (if take (length p) s = p then Some (drop (length p) s) else None)"

definition parse_string :: "string \<Rightarrow> (string \<times> string) option" where
  "parse_string s =
     (case s of
        [] \<Rightarrow> None
      | c # cs \<Rightarrow> if c = CHR 0x22 then go_unquote_body cs else None)"

definition is_digit :: "char \<Rightarrow> bool" where
  "is_digit c = (48 \<le> (of_char c :: nat) \<and> (of_char c :: nat) \<le> 57)"

fun parse_digits :: "string \<Rightarrow> nat \<Rightarrow> nat \<times> string" where
  "parse_digits [] acc = (acc, [])"
| "parse_digits (c # cs) acc =
     (if is_digit c then parse_digits cs (acc * 10 + (of_char c - 48)) else (acc, c # cs))"

definition parse_int64 :: "string \<Rightarrow> (64 word \<times> string) option" where
  "parse_int64 s =
     (let neg = (take 1 s = ''-'');
          t = (if neg then drop 1 s else s)
      in if t = [] \<or> \<not> is_digit (hd t) then None
         else if hd t = CHR ''0'' \<and> tl t \<noteq> [] \<and> is_digit (hd (tl t)) then None
         else (case parse_digits t 0 of
                 (n, rest) \<Rightarrow>
                   let v = (if neg then - int n else int n)
                   in if - (2 ^ 63) \<le> v \<and> v < 2 ^ 63 then Some (word_of_int v, rest)
                      else None))"

definition parse_block :: "string \<Rightarrow> (Block \<times> string) option" where
  \<open>parse_block s =
     Option.bind (strip_prefix ''{"datapoint":'' s) (\<lambda>s.
     Option.bind (parse_string s) (\<lambda>(dp, s).
     Option.bind (strip_prefix '',"normalized-time":'' s) (\<lambda>s.
     Option.bind (parse_int64 s) (\<lambda>(nt, s).
     Option.bind (strip_prefix '',"type":'' s) (\<lambda>s.
     Option.bind (parse_string s) (\<lambda>(ty, s).
     Option.bind (strip_prefix '',"timestamp":'' s) (\<lambda>s.
     Option.bind (parse_string s) (\<lambda>(ts, s).
     Option.bind (strip_prefix ''}'' s) (\<lambda>s.
       Some (\<lparr>Datapoint = dp, NormalizedTime = nt, Type = ty, Timestamp = ts\<rparr>, s))))))))))\<close>

fun parse_items :: "nat \<Rightarrow> string \<Rightarrow> Block list option" where
  "parse_items 0 s = None"
| "parse_items (Suc k) s =
     (case parse_block s of
        None \<Rightarrow> None
      | Some (b, rest) \<Rightarrow>
          if rest = '']'' then Some [b]
          else (case strip_prefix '','' rest of
                  None \<Rightarrow> None
                | Some s' \<Rightarrow> map_option ((#) b) (parse_items k s')))"

definition go_Unmarshal :: "string \<Rightarrow> go_error + Block slice" where
  "go_Unmarshal t =
     (if t = ''null'' then Inr nil
      else if t = ''[]'' then Inr (Slice [])
      else (case strip_prefix ''['' t of
              None \<Rightarrow> Inl DecodeError
            | Some s \<Rightarrow>
                (case parse_items (length t) s of
                   None \<Rightarrow> Inl DecodeError
                 | Some bs \<Rightarrow> Inr (Slice bs))))"

definition go_json :: json where
  "go_json = \<lparr>quote = go_quote, json_Unmarshal = go_Unmarshal\<rparr>"

subsection \<open>Concrete data for running the model\<close>

text \<open>
  An instance of the two open parts of \<open>encoding/json\<close>: strings are quoted without escapes
  (enough for strings free of quotes, backslashes and control bytes), and the decoder
  inverts the encoder on a given finite list of slices and rejects every other text.
\<close>

definition plain_quote :: "string \<Rightarrow> string" where
  "plain_quote s = [CHR 0x22] @ s @ [CHR 0x22]"

definition table_json :: "Block slice list \<Rightarrow> json" where
  "table_json known =
     \<lparr>quote = plain_quote,
      json_Unmarshal = (\<lambda>t.
        case List.find (\<lambda>a. json_Marshal plain_quote (blocks_value a) = Inr t) known of
          None \<Rightarrow> Inl DecodeError
        | Some a \<Rightarrow> Inr a)\<rparr>"

definition block_a :: Block where
  "block_a = \<lparr>Datapoint = ''120'', NormalizedTime = 1600000000000000000,
              Type = ''ping'', Timestamp = ''2020|9|13|12|26|40''\<rparr>"

definition block_b :: Block where
  "block_b = \<lparr>Datapoint = ''200'', NormalizedTime = 1600000000000000001,
              Type = ''latency'', Timestamp = ''2020|9|13|12|26|40''\<rparr>"

definition block_c :: Block where
  "block_c = \<lparr>Datapoint = ''350'', NormalizedTime = 1600000000000000002,
              Type = ''latency'', Timestamp = ''2020|9|13|12|26|41''\<rparr>"

text \<open>
  A block whose data point is the single byte 0xFF, which is not UTF-8, and the same block
  with the data point U+FFFD.
\<close>

definition block_x :: Block where
  "block_x = block_b\<lparr>Datapoint := [CHR 0xFF]\<rparr>"

definition block_y :: Block where
  "block_y = block_b\<lparr>Datapoint := [CHR 0xEF, CHR 0xBF, CHR 0xBD]\<rparr>"


text \<open>A directory \<open>storage\<close> holding one chain file with the given text, and nothing else.\<close>

definition storage_with :: "string \<Rightarrow> world" where
  "storage_with text =
     \<lparr>files = (\<lambda>p. None)(''storage'' := Some Dir, ''storage/route_a.json'' := Some (File text)),
      logged = []\<rparr>"

definition empty_world :: world where
  "empty_world = \<lparr>files = (\<lambda>p. None), logged = []\<rparr>"

section \<open>Properties\<close>

subsection \<open>Facts about paths and files\<close>

lemma strings_Split_no_sep: "sep \<notin> set s \<Longrightarrow> strings_Split s sep = [s]"
  by (induction s) auto

lemma dir_part_no_slash: "CHR ''/'' \<notin> set path \<Longrightarrow> dir_part path = []"
  by (simp add: dir_part_def strings_Split_no_sep)

lemma ReadFile_Inr: "ioutil_ReadFile fs path = Inr d \<Longrightarrow> path \<noteq> [] \<and> fs path = Some (File d)"
  by (auto simp: ioutil_ReadFile_def os_Stat_def split: if_splits option.splits node.splits)

lemma Stat_Inr: "os_Stat fs path = Inr n \<Longrightarrow> path \<noteq> [] \<and> fs path = Some n"
  by (auto simp: os_Stat_def split: if_splits option.splits)

lemma parse_unreadable:
  "ioutil_ReadFile fs path = Inl e \<Longrightarrow>
     parse fs path = (None, Some (ErrorString ''file not existed. create a new chain''))"
  by (simp add: parse_def)

lemma parse_readable: "ioutil_ReadFile fs path = Inr d \<Longrightarrow> parse fs path = (Some d, None)"
  by (simp add: parse_def)

lemma checkAndCreatePath_no_slash:
  "CHR ''/'' \<notin> set path \<Longrightarrow> checkAndCreatePath fs path = Inl (PanicError ENOENT, fs)"
  by (simp add: checkAndCreatePath_def strings_Split_no_sep os_Stat_def os_MkdirAll_def)

lemma checkAndCreatePath_exists:
  "os_Stat fs (dir_part path) = Inr n \<Longrightarrow> checkAndCreatePath fs path = Inr fs"
  by (simp add: checkAndCreatePath_def dir_part_def)


lemma ReadFile_written:
  "path \<noteq> [] \<Longrightarrow> ioutil_ReadFile (fs(path := Some (File data))) path = Inr data"
  by (simp add: ioutil_ReadFile_def os_Stat_def)

lemma saveToHDD_ok:
  assumes "path \<noteq> []" and "fs path \<noteq> Some Dir" and "os_Stat fs (dir_part path) = Inr Dir"
  shows "saveToHDD fs path data = Inr (fs(path := Some (File data)), None)"
proof -
  from assms(3) have d: "dir_part path \<noteq> []" "fs (dir_part path) = Some Dir"
    by (auto dest: Stat_Inr)
  have "checkAndCreatePath fs path = Inr fs"
    using assms(3) by (rule checkAndCreatePath_exists)
  then show ?thesis
    using assms(1,2) d by (simp add: saveToHDD_def ioutil_WriteFile_def)
qed


subsection \<open>Facts about reading and encoding\<close>

lemma json_Marshal_block: "json_Marshal q (block_value b) = Inr (block_json q b)"
  by (simp add: block_value_def block_json_def)

lemma Refresh_unreadable:
  "ioutil_ReadFile (files w) (ro_Path c) = Inl e \<Longrightarrow>
     Refresh J w c =
       Inl (NilPointerDereference,
            log_Errorf w (''error reading the chain: '' @ ro_Path c @ [CHR 0x0A]))"
  by (simp add: Refresh_def parse_unreadable loadFromStorage_def)

lemma collect_blocks:
  "collect (map (\<lambda>b. json_Marshal q (block_value b)) bs) = Inr (map (block_json q) bs)"
  by (induction bs) (simp_all add: json_Marshal_block)

lemma json_Marshal_blocks:
  "json_Marshal q (blocks_value (Slice bs)) =
     Inr (''['' @ strings_Join (map (block_json q) bs) '','' @ '']'')"
  by (simp add: blocks_value_def comp_def collect_blocks)

lemma parseToJSON_Slice:
  "parseToJSON J (Slice bs) =
     Inr (''['' @ strings_Join (map (block_json (quote J)) bs) '','' @ '']'')"
  by (simp add: parseToJSON_def json_Marshal_blocks)

lemma parseToJSON_nil: "parseToJSON J nil = Inr ''null''"
  by (simp add: parseToJSON_def blocks_value_def)

lemma parseToJSON_total: "\<exists>t. parseToJSON J a = Inr t"
  by (cases a) (simp_all add: parseToJSON_Slice parseToJSON_nil)

subsection \<open>Facts about Append and commit\<close>

lemma elems_go_append: "elems (go_append s xs) = elems s @ xs"
  by (simp add: go_append_def)

lemma elems_mergeBlocksSlice: "elems (mergeBlocksSlice a b) = elems a @ elems b"
  by (simp add: mergeBlocksSlice_def elems_go_append)

lemma Path_Append: "Path (Append c b) = Path c"
  by (simp add: Append_def Let_def)

lemma Chain_Append: "elems (Chain (Append c b)) = elems (Chain c) @ [b]"
  by (simp add: Append_def Let_def elems_go_append)

lemma flag_Append: "containsNewBlocks (Append c b)"
  by (simp add: Append_def Let_def)

lemma Path_Appends: "Path (foldl Append c bs) = Path c"
  by (induction bs arbitrary: c) (simp_all add: Path_Append)

lemma Chain_Appends: "elems (Chain (foldl Append c bs)) = elems (Chain c) @ bs"
  by (induction bs arbitrary: c) (simp_all add: Chain_Append)

lemma commit_shape:
  assumes "commit J w c = Inr (w', c')"
  shows "c' = c\<lparr>Chain := Slice [], containsNewBlocks := False\<rparr>"
  using assms
  by (auto simp: commit_def Let_def split: prod.splits option.splits sum.splits)

lemma commit_ok:
  assumes rd: "ioutil_ReadFile (files w) (Path c) = Inr d"
    and un: "json_Unmarshal J d = Inr s0"
    and dir: "os_Stat (files w) (dir_part (Path c)) = Inr Dir"
    and pj: "parseToJSON J (mergeBlocksSlice s0 (Chain c)) = Inr t"
  shows "commit J w c =
           Inr (w\<lparr>files := (files w)(Path c := Some (File t))\<rparr>,
                c\<lparr>Chain := Slice [], containsNewBlocks := False\<rparr>)"
proof -
  from rd have p: "Path c \<noteq> []" "files w (Path c) \<noteq> Some Dir"
    by (auto dest: ReadFile_Inr)
  have "saveToHDD (files w) (Path c) t = Inr ((files w)(Path c := Some (File t)), None)"
    using p dir by (rule saveToHDD_ok)
  then show ?thesis
    using rd un pj by (simp add: commit_def parse_readable loadFromStorage_def Let_def)
qed

lemma persisted_read:
  "ioutil_ReadFile fs path = Inr d \<Longrightarrow> json_Unmarshal J d = Inr a \<Longrightarrow>
     persisted J fs path = Some (elems a)"
  by (simp add: persisted_def parse_readable loadFromStorage_def)

lemma commit_Appends:
  assumes rd: "ioutil_ReadFile (files w) (Path c) = Inr d"
    and un: "json_Unmarshal J d = Inr s0"
    and dir: "os_Stat (files w) (dir_part (Path c)) = Inr Dir"
    and rt: "roundtrips J (mergeBlocksSlice s0 (Chain (foldl Append c bs)))"
  shows "\<exists>t a. commit J w (foldl Append c bs) =
             Inr (w\<lparr>files := (files w)(Path c := Some (File t))\<rparr>,
                  (foldl Append c bs)\<lparr>Chain := Slice [], containsNewBlocks := False\<rparr>)
           \<and> json_Unmarshal J t = Inr a \<and> elems a = elems s0 @ elems (Chain c) @ bs"
proof -
  let ?c = "foldl Append c bs"
  obtain t where t: "parseToJSON J (mergeBlocksSlice s0 (Chain ?c)) = Inr t"
    using parseToJSON_total by blast
  with rt obtain a where a: "json_Unmarshal J t = Inr a"
      "elems a = elems (mergeBlocksSlice s0 (Chain ?c))"
    by (auto simp: roundtrips_def split: sum.splits)
  have "commit J w ?c =
          Inr (w\<lparr>files := (files w)(Path c := Some (File t))\<rparr>,
               ?c\<lparr>Chain := Slice [], containsNewBlocks := False\<rparr>)"
    using commit_ok [of w ?c d J s0 t] rd un dir t by (simp add: Path_Appends)
  with a show ?thesis
    by (auto simp: elems_mergeBlocksSlice Chain_Appends)
qed

lemma block_json_nonempty: "block_json q b \<noteq> []"
  by (simp add: block_json_def)

subsection \<open>Facts about the scheduler and about runs of operations\<close>

lemma clean_atD:
  "clean_at h p \<Longrightarrow> \<exists>a c. p = Some a \<and> h a = Some c \<and> \<not> containsNewBlocks c"
  by (auto simp: clean_at_def deref_def split: option.splits)

lemma Run_chain_clean:
  "\<not> containsNewBlocks c \<Longrightarrow>
     Run_chain J w c = Inr (w, c\<lparr>inActiveIterations := inActiveIterations c + 1\<rparr>)"
  by (simp add: Run_chain_def)

lemma Run_range_clean:
  assumes "list_all (clean_at h) ps"
  shows "\<exists>h'. Run_range J w h ps = Inr (w, h')
          \<and> (\<forall>a. h' a = map_option
                 (\<lambda>c. c\<lparr>inActiveIterations := inActiveIterations c + of_nat (count_list ps (Some a))\<rparr>)
                 (h a))"
  using assms
proof (induction ps arbitrary: h)
  case Nil
  show ?case by (simp add: option.map_ident)
next
  case (Cons p ps)
  then have "clean_at h p"
    by simp
  from clean_atD [OF this] obtain a c where
    p: "p = Some a" "h a = Some c" "\<not> containsNewBlocks c"
    by blast
  let ?c = "c\<lparr>inActiveIterations := inActiveIterations c + 1\<rparr>"
  let ?h = "h(a := Some ?c)"
  have "list_all (clean_at ?h) ps"
    unfolding list_all_iff
  proof
    fix q
    assume "q \<in> set ps"
    with Cons.prems have "clean_at h q"
      by (simp add: list_all_iff)
    from clean_atD [OF this] obtain b d where
      q: "q = Some b" "h b = Some d" "\<not> containsNewBlocks d"
      by blast
    show "clean_at ?h q"
    proof (cases "b = a")
      case True
      with q p show ?thesis by (simp add: clean_at_def deref_def)
    next
      case False
      with q show ?thesis by (simp add: clean_at_def deref_def)
    qed
  qed
  from Cons.IH [OF this] obtain h' where
    h': "Run_range J w ?h ps = Inr (w, h')"
      "\<And>b. h' b = map_option
          (\<lambda>c. c\<lparr>inActiveIterations := inActiveIterations c + of_nat (count_list ps (Some b))\<rparr>)
          (?h b)"
    by blast
  have "Run_range J w h (p # ps) = Inr (w, h')"
    using p h'(1) by (simp add: deref_def Run_chain_clean)
  moreover have "h' b = map_option
          (\<lambda>c. c\<lparr>inActiveIterations := inActiveIterations c + of_nat (count_list (p # ps) (Some b))\<rparr>)
          (h b)" for b
    using h'(2) [of b] p by (cases "h b") (auto simp: add.assoc add.commute)
  ultimately show ?case by blast
qed


lemma apply_op_flag:
  assumes "apply_op J w c x = Inr (w', c')"
  shows "containsNewBlocks c' \<longleftrightarrow> elems (Chain c') \<noteq> []"
proof (cases x)
  case (DoAppend b)
  with assms have "c' = Append c b" by simp
  then show ?thesis by (simp add: flag_Append Chain_Append)
next
  case DoCommit
  with assms have "commit J w c = Inr (w', c')" by simp
  from commit_shape [OF this] show ?thesis by simp
qed

lemma run_ops_flag:
  assumes "run_ops J w c ops = Inr (w', c')" and "ops \<noteq> []"
  shows "containsNewBlocks c' \<longleftrightarrow> elems (Chain c') \<noteq> []"
  using assms
proof (induction ops arbitrary: w c)
  case Nil
  then show ?case by simp
next
  case (Cons x xs)
  from Cons.prems(1) obtain w1 c1 where
    step: "apply_op J w c x = Inr (w1, c1)" and rest: "run_ops J w1 c1 xs = Inr (w', c')"
    by (auto split: sum.splits)
  show ?case
  proof (cases "xs = []")
    case True
    with rest have "c' = c1" by simp
    with apply_op_flag [OF step] show ?thesis by simp
  next
    case False
    with Cons.IH [OF rest] show ?thesis by simp
  qed
qed

subsection \<open>Facts about the creation of directories and about Init\<close>















subsection \<open>Facts about UTF-8 and decimal numerals\<close>

lemma decode_one_byte: "n < 0x80 \<Longrightarrow> decode_bytes [n] = (int n, 1)"
  by (simp add: decode_bytes_def)

lemma decode_two_parts:
  assumes "r0 < 64" "2 \<le> q1" "q1 < 32"
  shows "decode_bytes [0xC0 + q1, 0x80 + r0] = (int (q1 * 64 + r0), 2)"
  using assms by (auto simp: decode_bytes_def second_lo_def second_hi_def)

lemma decode_three_parts:
  assumes "r0 < 64" "r1 < 64" "q2 < 16" "q2 = 0 \<longrightarrow> 32 \<le> r1" "q2 = 13 \<longrightarrow> r1 < 32"
  shows "decode_bytes [0xE0 + q2, 0x80 + r1, 0x80 + r0] = (int (q2 * 4096 + r1 * 64 + r0), 3)"
  using assms by (auto simp: decode_bytes_def second_lo_def second_hi_def cont_def)

lemma decode_four_parts:
  assumes "r0 < 64" "r1 < 64" "r2 < 64" "q3 \<le> 4" "q3 = 0 \<longrightarrow> 16 \<le> r2" "q3 = 4 \<longrightarrow> r2 < 16"
  shows "decode_bytes [0xF0 + q3, 0x80 + r2, 0x80 + r1, 0x80 + r0] = (int (q3 * 262144 + r2 * 4096 + r1 * 64 + r0), 4)"
  using assms by (auto simp: decode_bytes_def second_lo_def second_hi_def cont_def)

lemma div4096: "(n::nat) div 4096 = n div 64 div 64"
  by (simp add: div_mult2_eq [symmetric])

lemma div262144: "(n::nat) div 262144 = n div 64 div 64 div 64"
  by (simp add: div_mult2_eq [symmetric])

lemma decode_two_bytes:
  assumes "0x80 \<le> n" "n < 0x800"
  shows "decode_bytes [0xC0 + n div 0x40, 0x80 + n mod 0x40] = (int n, 2)"
proof -
  define q1 where "q1 = n div 64"
  define r0 where "r0 = n mod 64"
  have n: "n = q1 * 64 + r0" and r0: "r0 < 64" by (simp_all add: q1_def r0_def)
  have "2 \<le> q1" "q1 < 32" using assms n r0 by linarith+
  from decode_two_parts[OF r0 this] show ?thesis by (simp add: q1_def r0_def)
qed

lemma decode_three_bytes:
  assumes "0x800 \<le> n" "n < 0x10000" "\<not> (0xD800 \<le> n \<and> n \<le> 0xDFFF)"
  shows "decode_bytes [0xE0 + n div 0x1000, 0x80 + n div 0x40 mod 0x40, 0x80 + n mod 0x40] = (int n, 3)"
proof -
  define q1 where "q1 = n div 64"
  define r0 where "r0 = n mod 64"
  define q2 where "q2 = q1 div 64"
  define r1 where "r1 = q1 mod 64"
  have n: "n = q1 * 64 + r0" and r0: "r0 < 64" by (simp_all add: q1_def r0_def)
  have q1: "q1 = q2 * 64 + r1" and r1: "r1 < 64" by (simp_all add: q2_def r1_def)
  have n': "n = q2 * 4096 + r1 * 64 + r0" using n q1 by simp
  have a: "q2 < 16" using assms n' r0 r1 by linarith
  have lo: "q2 = 0 \<longrightarrow> 32 \<le> r1" using assms n' r0 r1 by auto
  have hi: "q2 = 13 \<longrightarrow> r1 < 32" using assms n' r0 r1 by auto
  have "decode_bytes [0xE0 + q2, 0x80 + r1, 0x80 + r0] = (int n, 3)"
    using decode_three_parts[OF r0 r1 a lo hi] n' by simp
  then show ?thesis by (simp add: div4096 q1_def q2_def r0_def r1_def)
qed

lemma decode_four_bytes:
  assumes "0x10000 \<le> n" "n \<le> 0x10FFFF"
  shows "decode_bytes [0xF0 + n div 0x40000, 0x80 + n div 0x1000 mod 0x40, 0x80 + n div 0x40 mod 0x40, 0x80 + n mod 0x40] = (int n, 4)"
proof -
  define q1 where "q1 = n div 64"
  define r0 where "r0 = n mod 64"
  define q2 where "q2 = q1 div 64"
  define r1 where "r1 = q1 mod 64"
  define q3 where "q3 = q2 div 64"
  define r2 where "r2 = q2 mod 64"
  have n: "n = q1 * 64 + r0" and r0: "r0 < 64" by (simp_all add: q1_def r0_def)
  have q1: "q1 = q2 * 64 + r1" and r1: "r1 < 64" by (simp_all add: q2_def r1_def)
  have q2: "q2 = q3 * 64 + r2" and r2: "r2 < 64" by (simp_all add: q3_def r2_def)
  have n': "n = q3 * 262144 + r2 * 4096 + r1 * 64 + r0" using n q1 q2 by simp
  have a: "q3 \<le> 4" using assms n' r0 r1 r2 by linarith
  have lo: "q3 = 0 \<longrightarrow> 16 \<le> r2" using assms n' r0 r1 r2 by auto
  have hi: "q3 = 4 \<longrightarrow> r2 < 16" using assms n' r0 r1 r2 by auto
  have "decode_bytes [0xF0 + q3, 0x80 + r2, 0x80 + r1, 0x80 + r0] = (int n, 4)"
    using decode_four_parts[OF r0 r1 r2 a lo hi] n' by simp
  then show ?thesis by (simp add: div4096 div262144 q1_def q2_def q3_def r0_def r1_def r2_def)
qed


lemma Encode_Decode:
  assumes "valid_rune (int n)"
  shows "utf8_DecodeRuneInString (utf8_EncodeRune n) = (int n, length (utf8_EncodeRune n))"
proof -
  have b: "n mod 64 < 64" "n div 64 mod 64 < 64" "n div 4096 mod 64 < 64" by simp_all
  have v: "n \<le> 0x10FFFF" "\<not> (0xD800 \<le> n \<and> n \<le> 0xDFFF)"
    using assms by (simp_all add: valid_rune_def)
  show ?thesis
  proof (cases "n < 0x80")
    case True
    then show ?thesis by (simp add: utf8_DecodeRuneInString_def utf8_EncodeRune_def decode_one_byte)
  next
    case n1: False
    show ?thesis
    proof (cases "n < 0x800")
      case True
      have "n div 64 < 32" using True by simp
      moreover have "decode_bytes [0xC0 + n div 0x40, 0x80 + n mod 0x40] = (int n, 2)"
        using n1 True by (intro decode_two_bytes) simp_all
      ultimately show ?thesis using n1 True b
        by (simp add: utf8_DecodeRuneInString_def utf8_EncodeRune_def)
    next
      case n2: False
      show ?thesis
      proof (cases "n < 0x10000")
        case True
        have "n div 4096 < 16" using True by simp
        moreover have "decode_bytes [0xE0 + n div 0x1000, 0x80 + n div 0x40 mod 0x40, 0x80 + n mod 0x40] = (int n, 3)"
          using n2 True v by (intro decode_three_bytes) simp_all
        ultimately show ?thesis using n1 n2 True b
          by (simp add: utf8_DecodeRuneInString_def utf8_EncodeRune_def)
      next
        case n3: False
        have "n div 262144 < 5" using v by simp
        moreover have "decode_bytes [0xF0 + n div 0x40000, 0x80 + n div 0x1000 mod 0x40, 0x80 + n div 0x40 mod 0x40, 0x80 + n mod 0x40] = (int n, 4)"
          using n3 v by (intro decode_four_bytes) simp_all
        ultimately show ?thesis using n1 n2 n3 b
          by (simp add: utf8_DecodeRuneInString_def utf8_EncodeRune_def)
      qed
    qed
  qed
qed

lemma Encode_nonempty: "utf8_EncodeRune n \<noteq> []"
  by (simp add: utf8_EncodeRune_def)

lemma valid_FFFD: "valid_rune 0xFFFD"
  by (simp add: valid_rune_def)

lemma string_of_rune_single:
  "single_rune (string_of_rune r) (if valid_rune (sint r) then sint r else 0xFFFD)"
proof (cases "valid_rune (sint r)")
  case True
  then have "0 \<le> sint r" by (simp add: valid_rune_def)
  then have "int (nat (sint r)) = sint r" by simp
  with True Encode_Decode[of "nat (sint r)"] show ?thesis
    by (simp add: single_rune_def string_of_rune_def)
next
  case False
  with Encode_Decode[of "0xFFFD"] valid_FFFD show ?thesis
    by (simp add: single_rune_def string_of_rune_def)
qed

lemma Stringified_single_rune:
  "single_rune (GetNormalizedTimeStringified b)
     (if valid_rune (sint (ucast (NormalizedTime b) :: 32 word))
      then sint (ucast (NormalizedTime b) :: 32 word) else 0xFFFD)"
  using string_of_rune_single [of "ucast (NormalizedTime b)"]
  by (simp add: GetNormalizedTimeStringified_def)

lemma small_rune:
  fixes w :: "64 word"
  assumes "0 \<le> sint w" "sint w < 10"
  shows "sint (ucast w :: 32 word) = sint w"
proof -
  have recover: "\<And>k. sint w = k \<Longrightarrow> w = of_int k" by auto
  from assms have "sint w = 0 \<or> sint w = 1 \<or> sint w = 2 \<or> sint w = 3 \<or> sint w = 4
      \<or> sint w = 5 \<or> sint w = 6 \<or> sint w = 7 \<or> sint w = 8 \<or> sint w = 9" by arith
  then have "w = of_int 0 \<or> w = of_int 1 \<or> w = of_int 2 \<or> w = of_int 3 \<or> w = of_int 4
      \<or> w = of_int 5 \<or> w = of_int 6 \<or> w = of_int 7 \<or> w = of_int 8 \<or> w = of_int 9"
    using recover by blast
  then show ?thesis by auto
qed

lemma digit_char: "k < 10 \<Longrightarrow> of_char (''0123456789'' ! k) = (48 + k :: nat)"
proof -
  assume "k < 10"
  then have "k \<in> {0,1,2,3,4,5,6,7,8,9}" by auto
  then show ?thesis by auto
qed

lemma digits_hd: "digits n \<noteq> [] \<and> of_char (hd (digits n)) < (0x80::nat)"
proof (induction n rule: digits.induct)
  case (1 n)
  show ?case
  proof (cases "n < 10")
    case True
    then show ?thesis using digit_char[OF True] by (simp add: digits.simps[of n])
  next
    case False
    then show ?thesis using 1 by (simp add: digits.simps[of n])
  qed
qed

lemma digits_single: "length (digits n) = Suc 0 \<Longrightarrow> n < 10"
  using digits_hd[of "n div 10"] by (cases "n < 10") (auto simp: digits.simps[of n])

lemma Encode_hd: "0x80 \<le> n \<Longrightarrow> n \<le> 0x10FFFF \<Longrightarrow> 0xC0 \<le> (of_char (hd (utf8_EncodeRune n)) :: nat)"
proof -
  assume a: "0x80 \<le> n" "n \<le> 0x10FFFF"
  have "n < 0x800 \<Longrightarrow> n div 64 < 32" by simp
  moreover have "n < 0x10000 \<Longrightarrow> n div 4096 < 16" by simp
  moreover have "n div 262144 < 5" using a by simp
  ultimately show ?thesis using a by (simp add: utf8_EncodeRune_def)
qed


lemma FormatInt_hd: "strconv_FormatInt n \<noteq> [] \<and> of_char (hd (strconv_FormatInt n)) < (0x80::nat)"
  using digits_hd[of "nat n"] by (simp add: strconv_FormatInt_def)

lemma FormatInt_single:
  assumes "length (strconv_FormatInt n) = 1"
  shows "0 \<le> n \<and> n < 10 \<and> strconv_FormatInt n = [''0123456789'' ! nat n]"
proof -
  have "0 \<le> n" using assms digits_hd[of "nat (- n)"] by (auto simp: strconv_FormatInt_def split: if_splits)
  moreover from this assms have "nat n < 10" by (auto simp: strconv_FormatInt_def dest: digits_single)
  ultimately show ?thesis by (simp add: strconv_FormatInt_def digits.simps[of "nat n"])
qed

lemma Stringified_not_decimal: "GetNormalizedTimeStringified b \<noteq> strconv_FormatInt (sint (NormalizedTime b))"
proof
  let ?n = "sint (NormalizedTime b)"
  let ?r = "sint (ucast (NormalizedTime b) :: 32 word)"
  assume eq: "GetNormalizedTimeStringified b = strconv_FormatInt ?n"
  show False
  proof (cases "valid_rune ?r \<and> ?r < 0x80")
    case True
    then have r: "0 \<le> ?r" "?r < 0x80" by (simp_all add: valid_rune_def)
    have s: "GetNormalizedTimeStringified b = [char_of (nat ?r)]"
      using True r by (simp add: GetNormalizedTimeStringified_def string_of_rune_def utf8_EncodeRune_def)
    from s eq have "strconv_FormatInt ?n = [char_of (nat ?r)]" by simp
    then have "length (strconv_FormatInt ?n) = 1" by simp
    from FormatInt_single[OF this] have n: "0 \<le> ?n" "?n < 10" "strconv_FormatInt ?n = [''0123456789'' ! nat ?n]"
      by simp_all
    from small_rune[OF n(1,2)] have rn: "?r = ?n" .
    from s eq n(3) have "char_of (nat ?r) = ''0123456789'' ! nat ?n" by simp
    then have "(of_char (char_of (nat ?r)) :: nat) = of_char (''0123456789'' ! nat ?n)" by simp
    moreover have "nat ?n < 10" using n by simp
    ultimately have "nat ?r mod 256 = 48 + nat ?n" using digit_char by simp
    then show False using rn n by simp
  next
    case False
    have "0xC0 \<le> (of_char (hd (GetNormalizedTimeStringified b)) :: nat)"
    proof (cases "valid_rune ?r")
      case True
      with False have "0x80 \<le> nat ?r" "nat ?r \<le> 0x10FFFF" unfolding valid_rune_def by linarith+
      from Encode_hd[OF this] True show ?thesis
        by (simp add: GetNormalizedTimeStringified_def string_of_rune_def)
    next
      case False
      have "(0x80::nat) \<le> 0xFFFD" "(0xFFFD::nat) \<le> 0x10FFFF" by simp_all
      from Encode_hd[OF this] False show ?thesis
        by (simp add: GetNormalizedTimeStringified_def string_of_rune_def)
    qed
    with eq FormatInt_hd[of ?n] show False by simp
  qed
qed

subsection \<open>Facts about the instance of encoding/json\<close>

lemma go_quote_ff: "go_quote [CHR 0xFF] = [CHR 0x22, CHR 0x5C, CHR ''u'', CHR ''f'', CHR ''f'', CHR ''f'', CHR ''d'', CHR 0x22]"
  by (simp add: go_quote_def utf8_DecodeRuneInString_def decode_bytes_def)

lemma go_quote_plain:
  "go_quote ''latency'' = [CHR 0x22] @ ''latency'' @ [CHR 0x22]"
  "go_quote ''2020|9|13|12|26|40'' = [CHR 0x22] @ ''2020|9|13|12|26|40'' @ [CHR 0x22]"
  by (simp_all add: go_quote_def quote_ascii_def)

lemma time_b: "strconv_FormatInt 1600000000000000001 = ''1600000000000000001''"
  by (simp add: strconv_FormatInt_def digits.simps)

lemma text_x: \<open>block_json go_quote block_x =
   ''{"datapoint":"'' @ [CHR 0x5C] @ ''ufffd","normalized-time":1600000000000000001,"type":"latency","timestamp":"2020|9|13|12|26|40"}''\<close>
  by (simp add: block_json_def block_x_def block_b_def go_quote_ff go_quote_plain time_b)

lemma unq1: "go_unquote_body ([CHR 0x5C] @ ''ufffd'' @ [CHR 0x22] @ rest) = Some ([CHR 0xEF, CHR 0xBF, CHR 0xBD], rest)"
  by (simp add: hex4_def hex_val_def prepend_def string_of_rune_def valid_rune_def utf8_EncodeRune_def char_of_eq_iff)

lemma parse_x: "parse_block (block_json go_quote block_x @ rest) = Some (block_y, rest)"
  unfolding text_x
  by (simp add: parse_block_def strip_prefix_def parse_string_def hex4_def hex_val_def prepend_def
      string_of_rune_def valid_rune_def utf8_EncodeRune_def char_of_eq_iff parse_int64_def is_digit_def
      escape_char_def block_y_def block_b_def Let_def)

lemma Unmarshal_x:
  "json_Unmarshal go_json (CHR ''['' # block_json go_quote block_x @ '']'') = Inr (Slice [block_y])"
proof -
  have "parse_items (Suc k) (block_json go_quote block_x @ '']'') = Some [block_y]" for k
    by (simp add: parse_x)
  then show ?thesis
    by (simp add: go_json_def go_Unmarshal_def strip_prefix_def block_json_nonempty)
qed

lemma go_json_empty: "json_Unmarshal go_json ''[]'' = Inr (Slice [])"
  by (simp add: go_json_def go_Unmarshal_def)

lemma storage_route:
  "ioutil_ReadFile (files (storage_with t)) ''storage/route_a.json'' = Inr t"
  "os_Stat (files (storage_with t)) (dir_part ''storage/route_a.json'') = Inr Dir"
  by (simp_all add: storage_with_def ioutil_ReadFile_def os_Stat_def dir_part_def)

lemma storage_rewrite:
  "(storage_with t)\<lparr>files := (files (storage_with t))(''storage/route_a.json'' := Some (File t'))\<rparr> =
     storage_with t'"
  by (simp add: storage_with_def)

lemma commit_block_x:
  "commit go_json (storage_with ''[]'') (Append (NewChain ''storage/route_a.json'') block_x) =
     Inr (storage_with (''['' @ block_json go_quote block_x @ '']''),
          (Append (NewChain ''storage/route_a.json'') block_x)
            \<lparr>Chain := Slice [], containsNewBlocks := False\<rparr>)"
proof -
  let ?c = "Append (NewChain ''storage/route_a.json'') block_x"
  have p: "Path ?c = ''storage/route_a.json''"
    by (simp add: Path_Append NewChain_def)
  have pj: "parseToJSON go_json (mergeBlocksSlice (Slice []) (Chain ?c)) =
      Inr (''['' @ block_json go_quote block_x @ '']'')"
    by (simp add: mergeBlocksSlice_def go_append_def Append_def NewChain_def Let_def
        parseToJSON_Slice go_json_def)
  from commit_ok [of "storage_with ''[]''" ?c "''[]''" go_json "Slice []", OF _ go_json_empty _ pj]
  show ?thesis
    by (simp add: p storage_route storage_rewrite)
qed

lemma persisted_block_x:
  "persisted go_json (files (storage_with (''['' @ block_json go_quote block_x @ '']'')))
     ''storage/route_a.json'' = Some [block_y]"
  using persisted_read [OF storage_route(1), of go_json _ "Slice [block_y]"]
  by (simp add: Unmarshal_x)

lemma block_y_differs: "block_y \<noteq> block_x"
  by (simp add: block_x_def block_y_def block_b_def)

lemma go_quote_samples:
  "go_quote ''120'' = [CHR 0x22] @ ''120'' @ [CHR 0x22]"
  "go_quote ''200'' = [CHR 0x22] @ ''200'' @ [CHR 0x22]"
  "go_quote ''350'' = [CHR 0x22] @ ''350'' @ [CHR 0x22]"
  "go_quote ''ping'' = [CHR 0x22] @ ''ping'' @ [CHR 0x22]"
  "go_quote ''2020|9|13|12|26|41'' = [CHR 0x22] @ ''2020|9|13|12|26|41'' @ [CHR 0x22]"
  by (simp_all add: go_quote_def quote_ascii_def)

lemma times_samples:
  "strconv_FormatInt 1600000000000000000 = ''1600000000000000000''"
  "strconv_FormatInt 1600000000000000002 = ''1600000000000000002''"
  by (simp_all add: strconv_FormatInt_def digits.simps)

lemma text_a: \<open>block_json go_quote block_a =
   ''{"datapoint":"120","normalized-time":1600000000000000000,"type":"ping","timestamp":"2020|9|13|12|26|40"}''\<close>
  by (simp add: block_json_def block_a_def go_quote_samples go_quote_plain times_samples)

lemma text_b: \<open>block_json go_quote block_b =
   ''{"datapoint":"200","normalized-time":1600000000000000001,"type":"latency","timestamp":"2020|9|13|12|26|40"}''\<close>
  by (simp add: block_json_def block_b_def go_quote_samples go_quote_plain time_b)

lemma text_c: \<open>block_json go_quote block_c =
   ''{"datapoint":"350","normalized-time":1600000000000000002,"type":"latency","timestamp":"2020|9|13|12|26|41"}''\<close>
  by (simp add: block_json_def block_c_def go_quote_samples go_quote_plain times_samples)

lemmas parse_defs = parse_block_def strip_prefix_def parse_string_def prepend_def
  parse_int64_def is_digit_def Let_def

lemma parse_a: "parse_block (block_json go_quote block_a @ rest) = Some (block_a, rest)"
  unfolding text_a by (simp add: parse_defs block_a_def)

lemma parse_b: "parse_block (block_json go_quote block_b @ rest) = Some (block_b, rest)"
  unfolding text_b by (simp add: parse_defs block_b_def)

lemma parse_c: "parse_block (block_json go_quote block_c @ rest) = Some (block_c, rest)"
  unfolding text_c by (simp add: parse_defs block_c_def)

lemma roundtrips_abc: "roundtrips go_json (Slice [block_a, block_b, block_c])"
  by (simp add: roundtrips_def parseToJSON_Slice go_json_def go_Unmarshal_def strip_prefix_def
      parse_a parse_b parse_c block_json_nonempty)

lemma roundtrips_bc: "roundtrips go_json (Slice [block_b, block_c])"
  by (simp add: roundtrips_def parseToJSON_Slice go_json_def go_Unmarshal_def strip_prefix_def
      parse_b parse_c block_json_nonempty)

lemma Unmarshal_a:
  "json_Unmarshal go_json (''['' @ block_json go_quote block_a @ '']'') = Inr (Slice [block_a])"
  by (simp add: go_json_def go_Unmarshal_def strip_prefix_def parse_a block_json_nonempty)

lemma not_roundtrips_x: "\<not> roundtrips go_json (Slice [block_x])"
  using block_y_differs Unmarshal_x
  by (simp add: roundtrips_def parseToJSON_Slice go_json_def)

subsection \<open>ChainSet: registering a name twice\<close>

text \<open>
  C7. Registering a name a second time replaces the earlier entry: after
  \<open>Register(x, chain1)\<close> and \<open>Register(x, chain2)\<close>, \<open>Get(x)\<close> returns \<open>chain2\<close> and reports that
  the name was found. This holds for every chain set, name and pair of chain pointers.
\<close>

theorem Register_twice_Get:
  "Get (Register (Register cs name chain1) name chain2) name = (chain2, True)"
  by (simp add: Get_def Register_def)

subsection \<open>Block.Encode\<close>

text \<open>
  C8. \<open>Encode\<close> succeeds on every block and returns its JSON object: reflection shows only
  string and integer fields, so \<open>json.Marshal\<close> never reaches its error for unsupported
  values and the \<open>panic\<close> branch of \<open>Encode\<close> is not taken.
\<close>

theorem Encode_succeeds: "Encode J b = Inr (block_json (quote J) b)"
  by (simp add: Encode_def json_Marshal_block)

subsection \<open>Chain.Init on a path without a directory part\<close>

text \<open>
  C10. When the path of a chain contains no \<open>/\<close> and its file cannot be read, \<open>Init\<close> panics
  and creates nothing: \<open>checkAndCreatePath\<close> drops the last segment of the path, which leaves
  the empty string, \<open>os.Stat\<close> and \<open>os.MkdirAll\<close> both fail on it, and the error of
  \<open>os.MkdirAll\<close> is the argument of the panic. At the panic one line has been logged and
  the files are those from before the call, so the file of the chain still cannot be read.
\<close>

theorem Init_panics_without_directory_part:
  assumes "CHR ''/'' \<notin> set (Path c)"
    and "ioutil_ReadFile (files w) (Path c) = Inl e"
  shows "strings_Join (butlast (strings_Split (Path c) (CHR ''/''))) ''/'' = []
         \<and> os_MkdirAll (files w) [] = Inl (ENOENT, files w)
         \<and> Init w c =
             Inl (PanicError ENOENT,
                  log_Infof w (''creating in-memory chain: '' @ Name c @ [CHR 0x0A]))
         \<and> files (log_Infof w (''creating in-memory chain: '' @ Name c @ [CHR 0x0A])) = files w
         \<and> ioutil_ReadFile
               (files (log_Infof w (''creating in-memory chain: '' @ Name c @ [CHR 0x0A])))
               (Path c) = Inl e"
proof -
  let ?w = "log_Infof w (''creating in-memory chain: '' @ Name c @ [CHR 0x0A])"
  have f: "files ?w = files w"
    by (simp add: log_Infof_def)
  have "snd (parse (files w) (Path c)) \<noteq> None"
    using assms(2) by (simp add: parse_unreadable)
  moreover have "saveToHDD (files ?w) (Path c) ''[]'' = Inl (PanicError ENOENT, files ?w)"
    using assms(1) by (simp add: saveToHDD_def checkAndCreatePath_no_slash)
  ultimately have "Init w c = Inl (PanicError ENOENT, ?w)"
    by (auto simp: Init_def Let_def)
  then show ?thesis
    using assms f by (simp add: strings_Split_no_sep os_MkdirAll_def)
qed

theorem Init_panics_without_directory_part_witness:
  "CHR ''/'' \<notin> set (Path (NewChain ''route_a.json''))
   \<and> ioutil_ReadFile (files empty_world) (Path (NewChain ''route_a.json'')) = Inl ENOENT
   \<and> Init empty_world (NewChain ''route_a.json'') =
       Inl (PanicError ENOENT,
            \<lparr>files = (\<lambda>p. None),
             logged = [''creating in-memory chain: route_a___json'' @ [CHR 0x0A]]\<rparr>)
   \<and> ioutil_ReadFile (\<lambda>p. None) ''route_a.json'' = Inl ENOENT"
proof -
  let ?c = "NewChain ''route_a.json''"
  have h1: "CHR ''/'' \<notin> set (Path ?c)"
    by (simp add: NewChain_def)
  have h2: "ioutil_ReadFile (files empty_world) (Path ?c) = Inl ENOENT"
    by (simp add: NewChain_def empty_world_def ioutil_ReadFile_def os_Stat_def)
  have n: "Name ?c = ''route_a___json''" "Path ?c = ''route_a.json''"
    by (simp_all add: NewChain_def filterChainPath_def strings_ReplaceAll_def)
  from Init_panics_without_directory_part [OF h1 h2]
  have g1: "Init empty_world ?c =
       Inl (PanicError ENOENT,
            \<lparr>files = (\<lambda>p. None),
             logged = [''creating in-memory chain: route_a___json'' @ [CHR 0x0A]]\<rparr>)"
    and g2: "ioutil_ReadFile (\<lambda>p. None) ''route_a.json'' = Inl ENOENT"
    by (simp_all add: n log_Infof_def empty_world_def)
  show ?thesis
    by (intro conjI h1 h2 g1 g2)
qed

subsection \<open>ChainReadOnly.Refresh on an unreadable path\<close>

text \<open>
  C3. The claim is that \<open>Refresh\<close> on an unreadable path only logs and keeps the blocks loaded
  before. The code logs and then hands the \<open>nil\<close> pointer that \<open>parse\<close> returned to
  \<open>loadFromStorage\<close>, which dereferences it: on a read-only view that holds a block loaded
  earlier and whose path no longer exists, \<open>Refresh\<close> ends in a nil pointer panic.
\<close>

theorem Refresh_unreadable_panics:
  "Refresh J empty_world ((ReadOnly ''storage/route_a.json'')\<lparr>ro_Chain := Slice [block_a]\<rparr>) =
     Inl (NilPointerDereference,
          \<lparr>files = (\<lambda>p. None),
           logged = [''error reading the chain: storage/route_a.json'' @ [CHR 0x0A]]\<rparr>)"
  by (simp add: Refresh_def ReadOnly_def empty_world_def parse_def ioutil_ReadFile_def
      os_Stat_def loadFromStorage_def log_Errorf_def)

subsection \<open>commit: what reaches the file\<close>

text \<open>
  C1. The claim is that after any sequence of \<open>Append\<close> calls and a \<open>commit\<close> the file holds the
  blocks persisted before followed by the appended blocks. It fails for a block with a
  string that is not valid UTF-8: \<open>json.Marshal\<close> writes U+FFFD for the offending byte, so
  what the file holds afterwards is another block. What holds: take a chain whose file can
  be read and decodes to the blocks \<open>s0\<close>, whose directory exists, and for which the decoder
  gives back the blocks of the text that the encoder writes for the merged slice. After any
  sequence \<open>bs\<close> of \<open>Append\<close> calls, \<open>commit\<close> returns, and the blocks persisted in the file
  are then the blocks persisted before, followed by the blocks held in memory (those
  pending before the calls, then \<open>bs\<close> in the order of the calls); the persisted count is
  the earlier count plus the number of blocks in memory.
\<close>

theorem commit_persists_prior_then_appended:
  assumes rd: "ioutil_ReadFile (files w) (Path c) = Inr d"
    and un: "json_Unmarshal J d = Inr s0"
    and dir: "os_Stat (files w) (dir_part (Path c)) = Inr Dir"
    and rt: "roundtrips J (mergeBlocksSlice s0 (Chain (foldl Append c bs)))"
  shows "\<exists>w' c'. commit J w (foldl Append c bs) = Inr (w', c')
           \<and> persisted J (files w) (Path c) = Some (elems s0)
           \<and> persisted J (files w') (Path c) = Some (elems s0 @ elems (Chain c) @ bs)
           \<and> map_option length (persisted J (files w') (Path c)) =
               Some (length (elems s0) + length (elems (Chain c) @ bs))"
proof -
  from commit_Appends [OF rd un dir rt] obtain t a where
    c: "commit J w (foldl Append c bs) =
          Inr (w\<lparr>files := (files w)(Path c := Some (File t))\<rparr>,
               (foldl Append c bs)\<lparr>Chain := Slice [], containsNewBlocks := False\<rparr>)"
    and a: "json_Unmarshal J t = Inr a" "elems a = elems s0 @ elems (Chain c) @ bs"
    by blast
  have ne: "Path c \<noteq> []" using rd by (auto dest: ReadFile_Inr)
  have p0: "persisted J (files w) (Path c) = Some (elems s0)"
    using rd un by (rule persisted_read)
  have "persisted J ((files w)(Path c := Some (File t))) (Path c) = Some (elems a)"
    using ReadFile_written [OF ne] a(1) by (rule persisted_read)
  with c p0 a(2) show ?thesis by simp
qed


theorem commit_persists_another_block:
  "ioutil_ReadFile (files (storage_with ''[]'')) (Path (NewChain ''storage/route_a.json'')) = Inr ''[]''
   \<and> json_Unmarshal go_json ''[]'' = Inr (Slice [])
   \<and> os_Stat (files (storage_with ''[]'')) (dir_part (Path (NewChain ''storage/route_a.json''))) =
       Inr Dir
   \<and> commit go_json (storage_with ''[]'')
        (foldl Append (NewChain ''storage/route_a.json'') [block_x]) =
       Inr (storage_with (''['' @ block_json go_quote block_x @ '']''),
            (Append (NewChain ''storage/route_a.json'') block_x)
              \<lparr>Chain := Slice [], containsNewBlocks := False\<rparr>)
   \<and> persisted go_json (files (storage_with ''[]'')) ''storage/route_a.json'' = Some []
   \<and> persisted go_json (files (storage_with (''['' @ block_json go_quote block_x @ '']'')))
        ''storage/route_a.json'' = Some [block_y]
   \<and> persisted go_json (files (storage_with (''['' @ block_json go_quote block_x @ '']'')))
        ''storage/route_a.json'' \<noteq>
       Some ([] @ elems (Chain (NewChain ''storage/route_a.json'')) @ [block_x])
   \<and> \<not> roundtrips go_json (Slice [block_x])"
proof -
  have p: "Path (NewChain ''storage/route_a.json'') = ''storage/route_a.json''"
    by (simp add: NewChain_def)
  have e: "elems (Chain (NewChain ''storage/route_a.json'')) = []"
    by (simp add: NewChain_def)
  have c1: "ioutil_ReadFile (files (storage_with ''[]'')) (Path (NewChain ''storage/route_a.json'')) =
      Inr ''[]''"
    unfolding p by (rule storage_route)
  have c3: "os_Stat (files (storage_with ''[]'')) (dir_part (Path (NewChain ''storage/route_a.json''))) =
       Inr Dir"
    unfolding p by (rule storage_route)
  have c4: "commit go_json (storage_with ''[]'')
        (foldl Append (NewChain ''storage/route_a.json'') [block_x]) =
       Inr (storage_with (''['' @ block_json go_quote block_x @ '']''),
            (Append (NewChain ''storage/route_a.json'') block_x)
              \<lparr>Chain := Slice [], containsNewBlocks := False\<rparr>)"
    using commit_block_x by simp
  have c5: "persisted go_json (files (storage_with ''[]'')) ''storage/route_a.json'' = Some []"
    using persisted_read [OF storage_route(1) go_json_empty] by simp
  have c7: "persisted go_json (files (storage_with (''['' @ block_json go_quote block_x @ '']'')))
        ''storage/route_a.json'' \<noteq>
       Some ([] @ elems (Chain (NewChain ''storage/route_a.json'')) @ [block_x])"
    unfolding persisted_block_x e using block_y_differs by simp
  show ?thesis
    by (intro conjI c1 go_json_empty c3 c4 c5 persisted_block_x c7 not_roundtrips_x)
qed

theorem commit_persists_prior_then_appended_witness:
  "ioutil_ReadFile (files (storage_with (''['' @ block_json go_quote block_a @ '']'')))
       (Path (NewChain ''storage/route_a.json'')) = Inr (''['' @ block_json go_quote block_a @ '']'')
   \<and> json_Unmarshal go_json (''['' @ block_json go_quote block_a @ '']'') = Inr (Slice [block_a])
   \<and> os_Stat (files (storage_with (''['' @ block_json go_quote block_a @ '']'')))
       (dir_part (Path (NewChain ''storage/route_a.json''))) = Inr Dir
   \<and> roundtrips go_json
       (mergeBlocksSlice (Slice [block_a])
          (Chain (foldl Append (NewChain ''storage/route_a.json'') [block_b, block_c])))
   \<and> (\<exists>w' c'. commit go_json (storage_with (''['' @ block_json go_quote block_a @ '']''))
          (foldl Append (NewChain ''storage/route_a.json'') [block_b, block_c]) = Inr (w', c')
        \<and> persisted go_json (files w') ''storage/route_a.json'' =
            Some [block_a, block_b, block_c])"
proof -
  let ?d = "''['' @ block_json go_quote block_a @ '']''"
  let ?w = "storage_with ?d"
  let ?c = "NewChain ''storage/route_a.json''"
  have p: "Path ?c = ''storage/route_a.json''" and e: "elems (Chain ?c) = []"
    by (simp_all add: NewChain_def)
  have h1: "ioutil_ReadFile (files ?w) (Path ?c) = Inr ?d"
    unfolding p by (rule storage_route)
  have h2: "json_Unmarshal go_json ?d = Inr (Slice [block_a])"
    by (rule Unmarshal_a)
  have h3: "os_Stat (files ?w) (dir_part (Path ?c)) = Inr Dir"
    unfolding p by (rule storage_route)
  have h4: "roundtrips go_json
      (mergeBlocksSlice (Slice [block_a]) (Chain (foldl Append ?c [block_b, block_c])))"
    using roundtrips_abc
    by (simp add: mergeBlocksSlice_def go_append_def Append_def NewChain_def Let_def)
  from commit_persists_prior_then_appended [OF h1 h2 h3 h4] p e
  have h5: "\<exists>w' c'. commit go_json ?w (foldl Append ?c [block_b, block_c]) = Inr (w', c')
        \<and> persisted go_json (files w') ''storage/route_a.json'' =
            Some [block_a, block_b, block_c]"
    by auto
  show ?thesis
    by (intro conjI h1 h2 h3 h4 h5)
qed

subsection \<open>Append, commit, Refresh\<close>

text \<open>
  C4. The claim is that from an empty persisted file, appending any blocks, committing and
  refreshing a read-only view of the path yields exactly the appended blocks. It fails for
  a block with a string that is not valid UTF-8, which comes back with U+FFFD in place of
  the offending byte. What holds: take a chain whose file holds no blocks (it decodes to an
  empty slice), whose directory exists, and for which the decoder gives back the blocks of
  the text that the encoder writes for the merged slice. After any sequence \<open>bs\<close> of \<open>Append\<close>
  calls and a \<open>commit\<close>, \<open>Refresh\<close> on a read-only view of the same path returns, and its block
  stream holds exactly the blocks that were in memory, in the order they were appended;
  for a chain with nothing pending these are exactly \<open>bs\<close>.
\<close>

theorem append_commit_Refresh_roundtrip:
  assumes rd: "ioutil_ReadFile (files w) (Path c) = Inr d"
    and un: "json_Unmarshal J d = Inr s0"
    and empty: "elems s0 = []"
    and dir: "os_Stat (files w) (dir_part (Path c)) = Inr Dir"
    and rt: "roundtrips J (mergeBlocksSlice s0 (Chain (foldl Append c bs)))"
  shows "\<exists>w' c' r. commit J w (foldl Append c bs) = Inr (w', c')
           \<and> Refresh J w' (ReadOnly (Path c)) = Inr (w', r)
           \<and> elems (BlockStream r) = elems (Chain c) @ bs"
proof -
  from commit_Appends [OF rd un dir rt] obtain t a where
    c: "commit J w (foldl Append c bs) =
          Inr (w\<lparr>files := (files w)(Path c := Some (File t))\<rparr>,
               (foldl Append c bs)\<lparr>Chain := Slice [], containsNewBlocks := False\<rparr>)"
    and a: "json_Unmarshal J t = Inr a" "elems a = elems s0 @ elems (Chain c) @ bs"
    by blast
  let ?w = "w\<lparr>files := (files w)(Path c := Some (File t))\<rparr>"
  have ne: "Path c \<noteq> []" using rd by (auto dest: ReadFile_Inr)
  have "parse (files ?w) (Path c) = (Some t, None)"
    using ReadFile_written [OF ne] by (simp add: parse_readable)
  then have "Refresh J ?w (ReadOnly (Path c)) = Inr (?w, (ReadOnly (Path c))\<lparr>ro_Chain := a\<rparr>)"
    using a(1) by (simp add: Refresh_def ReadOnly_def loadFromStorage_def)
  with c a(2) empty show ?thesis
    by (simp add: BlockStream_def)
qed



theorem Refresh_returns_another_block:
  "commit go_json (storage_with ''[]'')
        (foldl Append (NewChain ''storage/route_a.json'') [block_x]) =
       Inr (storage_with (''['' @ block_json go_quote block_x @ '']''),
            (Append (NewChain ''storage/route_a.json'') block_x)
              \<lparr>Chain := Slice [], containsNewBlocks := False\<rparr>)
   \<and> Refresh go_json (storage_with (''['' @ block_json go_quote block_x @ '']''))
        (ReadOnly ''storage/route_a.json'') =
       Inr (storage_with (''['' @ block_json go_quote block_x @ '']''),
            \<lparr>ro_Path = ''storage/route_a.json'', ro_Chain = Slice [block_y]\<rparr>)
   \<and> elems (BlockStream \<lparr>ro_Path = ''storage/route_a.json'', ro_Chain = Slice [block_y]\<rparr>) \<noteq>
       elems (Chain (NewChain ''storage/route_a.json'')) @ [block_x]"
proof -
  have c1: "commit go_json (storage_with ''[]'')
        (foldl Append (NewChain ''storage/route_a.json'') [block_x]) =
       Inr (storage_with (''['' @ block_json go_quote block_x @ '']''),
            (Append (NewChain ''storage/route_a.json'') block_x)
              \<lparr>Chain := Slice [], containsNewBlocks := False\<rparr>)"
    using commit_block_x by simp
  have c2: "Refresh go_json (storage_with (''['' @ block_json go_quote block_x @ '']''))
        (ReadOnly ''storage/route_a.json'') =
       Inr (storage_with (''['' @ block_json go_quote block_x @ '']''),
            \<lparr>ro_Path = ''storage/route_a.json'', ro_Chain = Slice [block_y]\<rparr>)"
    by (simp add: Refresh_def ReadOnly_def parse_readable [OF storage_route(1)]
        loadFromStorage_def Unmarshal_x)
  have c3: "elems (BlockStream \<lparr>ro_Path = ''storage/route_a.json'', ro_Chain = Slice [block_y]\<rparr>) \<noteq>
       elems (Chain (NewChain ''storage/route_a.json'')) @ [block_x]"
    using block_y_differs by (simp add: BlockStream_def NewChain_def)
  show ?thesis
    by (intro conjI c1 c2 c3)
qed

theorem append_commit_Refresh_roundtrip_witness:
  "ioutil_ReadFile (files (storage_with ''[]'')) (Path (NewChain ''storage/route_a.json'')) = Inr ''[]''
   \<and> json_Unmarshal go_json ''[]'' = Inr (Slice [])
   \<and> elems (Slice [] :: Block slice) = []
   \<and> os_Stat (files (storage_with ''[]'')) (dir_part (Path (NewChain ''storage/route_a.json''))) = Inr Dir
   \<and> roundtrips go_json
       (mergeBlocksSlice (Slice [])
          (Chain (foldl Append (NewChain ''storage/route_a.json'') [block_b, block_c])))
   \<and> (\<exists>w' c' r. commit go_json (storage_with ''[]'')
          (foldl Append (NewChain ''storage/route_a.json'') [block_b, block_c]) = Inr (w', c')
        \<and> Refresh go_json w' (ReadOnly ''storage/route_a.json'') = Inr (w', r)
        \<and> elems (BlockStream r) = [block_b, block_c])"
proof -
  let ?w = "storage_with ''[]''"
  let ?c = "NewChain ''storage/route_a.json''"
  have p: "Path ?c = ''storage/route_a.json''" and e: "elems (Chain ?c) = []"
    by (simp_all add: NewChain_def)
  have h1: "ioutil_ReadFile (files ?w) (Path ?c) = Inr ''[]''"
    unfolding p by (rule storage_route)
  have h2: "json_Unmarshal go_json ''[]'' = Inr (Slice [])"
    by (rule go_json_empty)
  have h3: "elems (Slice [] :: Block slice) = []"
    by simp
  have h4: "os_Stat (files ?w) (dir_part (Path ?c)) = Inr Dir"
    unfolding p by (rule storage_route)
  have h5: "roundtrips go_json
      (mergeBlocksSlice (Slice []) (Chain (foldl Append ?c [block_b, block_c])))"
    using roundtrips_bc
    by (simp add: mergeBlocksSlice_def go_append_def Append_def NewChain_def Let_def)
  from append_commit_Refresh_roundtrip [OF h1 h2 h3 h4 h5] p e
  have h6: "\<exists>w' c' r. commit go_json ?w (foldl Append ?c [block_b, block_c]) = Inr (w', c')
        \<and> Refresh go_json w' (ReadOnly ''storage/route_a.json'') = Inr (w', r)
        \<and> elems (BlockStream r) = [block_b, block_c]"
    by auto
  show ?thesis
    by (intro conjI h1 h2 h3 h4 h5 h6)
qed

subsection \<open>After commit; the scheduler on a chain without new blocks\<close>

text \<open>
  C5. When \<open>commit\<close> returns, the chain holds no blocks in memory and \<open>containsNewBlocks\<close> is
  false, and a pass of the scheduler over that chain then leaves the files as they are and
  adds one to the chain's inactivity counter. In general, the scheduler does not commit a
  chain that it finds with \<open>containsNewBlocks\<close> false: the world is unchanged and the
  counter of the chain goes up by one (as a \<open>uint32\<close>, it wraps around). A whole pass over pointers that
  all lead to such chains writes no file and adds to each chain's counter the number of
  times the pass reaches it.
\<close>

theorem commit_clears_and_clean_chain_is_skipped:
  "(commit J w c = Inr (w', c') \<longrightarrow>
      elems (Chain c') = [] \<and> \<not> containsNewBlocks c'
      \<and> Run_chain J w' c' = Inr (w', c'\<lparr>inActiveIterations := inActiveIterations c' + 1\<rparr>))
   \<and> (\<not> containsNewBlocks d \<longrightarrow>
      Run_chain J w d = Inr (w, d\<lparr>inActiveIterations := inActiveIterations d + 1\<rparr>))
   \<and> (list_all (clean_at h) ps \<longrightarrow>
      (\<exists>h'. Run_range J w h ps = Inr (w, h')
         \<and> (\<forall>a. h' a = map_option
               (\<lambda>c. c\<lparr>inActiveIterations :=
                          inActiveIterations c + of_nat (count_list ps (Some a))\<rparr>)
               (h a))))"
proof (intro conjI impI)
  assume "commit J w c = Inr (w', c')"
  then have c': "c' = c\<lparr>Chain := Slice [], containsNewBlocks := False\<rparr>"
    by (rule commit_shape)
  then show "elems (Chain c') = []" and "\<not> containsNewBlocks c'"
    by simp_all
  then show "Run_chain J w' c' = Inr (w', c'\<lparr>inActiveIterations := inActiveIterations c' + 1\<rparr>)"
    by (simp add: Run_chain_clean)
next
  assume "\<not> containsNewBlocks d"
  then show "Run_chain J w d = Inr (w, d\<lparr>inActiveIterations := inActiveIterations d + 1\<rparr>)"
    by (rule Run_chain_clean)
next
  assume "list_all (clean_at h) ps"
  then show "\<exists>h'. Run_range J w h ps = Inr (w, h')
         \<and> (\<forall>a. h' a = map_option
               (\<lambda>c. c\<lparr>inActiveIterations :=
                          inActiveIterations c + of_nat (count_list ps (Some a))\<rparr>)
               (h a))"
    by (rule Run_range_clean)
qed


theorem commit_clears_and_clean_chain_is_skipped_witness:
  "(\<exists>w' c'. commit (table_json [Slice [], Slice [block_b]]) (storage_with ''[]'')
        (Append (NewChain ''storage/route_a.json'') block_b) = Inr (w', c')
      \<and> elems (Chain c') = [] \<and> \<not> containsNewBlocks c'
      \<and> Run_chain (table_json [Slice [], Slice [block_b]]) w' c' =
          Inr (w', c'\<lparr>inActiveIterations := inActiveIterations c' + 1\<rparr>))
   \<and> \<not> containsNewBlocks ((NewChain ''storage/route_a.json'')\<lparr>containsNewBlocks := False\<rparr>)
   \<and> Run_chain (table_json []) (storage_with ''[]'')
         ((NewChain ''storage/route_a.json'')\<lparr>containsNewBlocks := False\<rparr>) =
       Inr (storage_with ''[]'',
            (NewChain ''storage/route_a.json'')\<lparr>containsNewBlocks := False, inActiveIterations := 1\<rparr>)
   \<and> list_all
         (clean_at ((\<lambda>a. None)
            (0 := Some ((NewChain ''storage/route_a.json'')\<lparr>containsNewBlocks := False\<rparr>),
             1 := Some ((NewChain ''storage/route_b.json'')\<lparr>containsNewBlocks := False\<rparr>))))
         [Some 0, Some 1, Some 0]
   \<and> (\<exists>h'. Run_range (table_json []) (storage_with ''[]'')
          ((\<lambda>a. None)
            (0 := Some ((NewChain ''storage/route_a.json'')\<lparr>containsNewBlocks := False\<rparr>),
             1 := Some ((NewChain ''storage/route_b.json'')\<lparr>containsNewBlocks := False\<rparr>)))
          [Some 0, Some 1, Some 0] = Inr (storage_with ''[]'', h')
        \<and> h' 0 = Some ((NewChain ''storage/route_a.json'')
                        \<lparr>containsNewBlocks := False, inActiveIterations := 2\<rparr>)
        \<and> h' 1 = Some ((NewChain ''storage/route_b.json'')
                        \<lparr>containsNewBlocks := False, inActiveIterations := 1\<rparr>))"
proof -
  let ?J = "table_json [Slice [], Slice [block_b]]"
  let ?w = "storage_with ''[]''"
  let ?c = "NewChain ''storage/route_a.json''"
  let ?d = "?c\<lparr>containsNewBlocks := False\<rparr>"
  let ?e = "(NewChain ''storage/route_b.json'')\<lparr>containsNewBlocks := False\<rparr>"
  let ?h = "(\<lambda>a. None)(0 := Some ?d, 1 := Some ?e) :: store"
  let ?ps = "[Some 0, Some 1, Some 0] :: chain_ptr list"
  have r1: "ioutil_ReadFile (files ?w) (Path ?c) = Inr ''[]''"
    by (simp add: storage_with_def NewChain_def ioutil_ReadFile_def os_Stat_def)
  have r2: "json_Unmarshal ?J ''[]'' = Inr (Slice [])"
    by (simp add: table_json_def json_Marshal_blocks)
  have r3: "os_Stat (files ?w) (dir_part (Path ?c)) = Inr Dir"
    by (simp add: storage_with_def NewChain_def dir_part_def os_Stat_def)
  have r4: "roundtrips ?J (mergeBlocksSlice (Slice []) (Chain (foldl Append ?c [block_b])))"
    by (simp add: roundtrips_def parseToJSON_def json_Marshal_blocks table_json_def
        mergeBlocksSlice_def go_append_def Append_def NewChain_def Let_def block_json_nonempty)
  from commit_Appends [OF r1 r2 r3 r4] obtain w' c' where
    h1: "commit ?J ?w (Append ?c block_b) = Inr (w', c')"
    by auto
  have h2: "\<not> containsNewBlocks ?d"
    by simp
  have h3: "list_all (clean_at ?h) ?ps"
    by (simp add: clean_at_def deref_def)
  note first = commit_clears_and_clean_chain_is_skipped
    [where J = ?J and w = ?w and c = "Append ?c block_b" and w' = w' and c' = c'
       and d = ?d and h = ?h and ps = ?ps]
  note second = commit_clears_and_clean_chain_is_skipped
    [where J = "table_json []" and w = ?w and c = ?c and w' = ?w and c' = ?c
       and d = ?d and h = ?h and ps = ?ps]
  have g1: "\<exists>w' c'. commit ?J ?w (Append ?c block_b) = Inr (w', c')
      \<and> elems (Chain c') = [] \<and> \<not> containsNewBlocks c'
      \<and> Run_chain ?J w' c' = Inr (w', c'\<lparr>inActiveIterations := inActiveIterations c' + 1\<rparr>)"
    using first h1 by blast
  have g2: "Run_chain (table_json []) ?w ?d =
       Inr (?w, ?c\<lparr>containsNewBlocks := False, inActiveIterations := 1\<rparr>)"
    using second h2 by (simp add: NewChain_def)
  from second h3 obtain h' where
    run: "Run_range (table_json []) ?w ?h ?ps = Inr (?w, h')"
    and cnt: "\<And>a. h' a = map_option
               (\<lambda>c. c\<lparr>inActiveIterations :=
                          inActiveIterations c + of_nat (count_list ?ps (Some a))\<rparr>)
               (?h a)"
    by blast
  have "h' 0 = Some (?c\<lparr>containsNewBlocks := False, inActiveIterations := 2\<rparr>)"
    and "h' 1 = Some ((NewChain ''storage/route_b.json'')
                        \<lparr>containsNewBlocks := False, inActiveIterations := 1\<rparr>)"
    by (simp_all add: cnt NewChain_def)
  with run have g3: "\<exists>h'. Run_range (table_json []) ?w ?h ?ps = Inr (?w, h')
        \<and> h' 0 = Some (?c\<lparr>containsNewBlocks := False, inActiveIterations := 2\<rparr>)
        \<and> h' 1 = Some ((NewChain ''storage/route_b.json'')
                        \<lparr>containsNewBlocks := False, inActiveIterations := 1\<rparr>)"
    by blast
  show ?thesis
    by (intro conjI g1 h2 g2 h3 g3)
qed

subsection \<open>The flag containsNewBlocks in reachable states\<close>

text \<open>
  C2. The claim is that in every state reached from \<open>NewChain\<close> by \<open>Append\<close> and \<open>commit\<close>,
  \<open>containsNewBlocks\<close> is true exactly when there are blocks in memory. It fails in the state
  that \<open>NewChain\<close> itself returns, where the flag is set and no block is held. What holds:
  in every reachable state blocks in memory imply the flag; after at least one \<open>Append\<close> or
  \<open>commit\<close> the flag is true exactly when there are blocks in memory; and before any
  operation the flag is true and the memory empty.
\<close>

theorem flag_in_reachable_states:
  assumes "run_ops J w (NewChain path) ops = Inr (w', c)"
  shows "(elems (Chain c) \<noteq> [] \<longrightarrow> containsNewBlocks c)
         \<and> (ops \<noteq> [] \<longrightarrow> (containsNewBlocks c \<longleftrightarrow> elems (Chain c) \<noteq> []))
         \<and> (ops = [] \<longrightarrow> containsNewBlocks c \<and> elems (Chain c) = [])"
proof (cases "ops = []")
  case True
  with assms have "c = NewChain path" by simp
  with True show ?thesis by (simp add: NewChain_def)
next
  case False
  with run_ops_flag [OF assms] show ?thesis by simp
qed


theorem NewChain_flag_without_blocks:
  "run_ops (table_json []) empty_world (NewChain ''storage/route_a.json'') [] =
     Inr (empty_world, NewChain ''storage/route_a.json'')
   \<and> \<not> (containsNewBlocks (NewChain ''storage/route_a.json'')
          \<longleftrightarrow> elems (Chain (NewChain ''storage/route_a.json'')) \<noteq> [])"
  by (simp add: NewChain_def)


theorem flag_in_reachable_states_witness:
  "(\<exists>w' c. run_ops (table_json [Slice [], Slice [block_b]]) (storage_with ''[]'')
         (NewChain ''storage/route_a.json'') [DoAppend block_b, DoCommit, DoAppend block_c] =
         Inr (w', c)
       \<and> containsNewBlocks c \<and> elems (Chain c) = [block_c])
   \<and> (\<exists>w' c. run_ops (table_json [Slice [], Slice [block_b]]) (storage_with ''[]'')
         (NewChain ''storage/route_a.json'') [DoAppend block_b, DoCommit] = Inr (w', c)
       \<and> \<not> containsNewBlocks c \<and> elems (Chain c) = [])"
proof -
  let ?J = "table_json [Slice [], Slice [block_b]]"
  let ?w = "storage_with ''[]''"
  let ?c = "NewChain ''storage/route_a.json''"
  have r1: "ioutil_ReadFile (files ?w) (Path ?c) = Inr ''[]''"
    by (simp add: storage_with_def NewChain_def ioutil_ReadFile_def os_Stat_def)
  have r2: "json_Unmarshal ?J ''[]'' = Inr (Slice [])"
    by (simp add: table_json_def json_Marshal_blocks)
  have r3: "os_Stat (files ?w) (dir_part (Path ?c)) = Inr Dir"
    by (simp add: storage_with_def NewChain_def dir_part_def os_Stat_def)
  have r4: "roundtrips ?J (mergeBlocksSlice (Slice []) (Chain (foldl Append ?c [block_b])))"
    by (simp add: roundtrips_def parseToJSON_def json_Marshal_blocks table_json_def
        mergeBlocksSlice_def go_append_def Append_def NewChain_def Let_def block_json_nonempty)
  from commit_Appends [OF r1 r2 r3 r4] obtain w1 where
    cm: "commit ?J ?w (Append ?c block_b) =
           Inr (w1, (Append ?c block_b)\<lparr>Chain := Slice [], containsNewBlocks := False\<rparr>)"
    by auto
  let ?c1 = "(Append ?c block_b)\<lparr>Chain := Slice [], containsNewBlocks := False\<rparr>"
  have h1: "run_ops ?J ?w ?c [DoAppend block_b, DoCommit, DoAppend block_c] =
              Inr (w1, Append ?c1 block_c)"
    using cm by simp
  have h2: "run_ops ?J ?w ?c [DoAppend block_b, DoCommit] = Inr (w1, ?c1)"
    using cm by simp
  have e: "elems (Chain (Append ?c1 block_c)) = [block_c]"
    by (simp add: Chain_Append)
  from flag_in_reachable_states [OF h1] e
  have g1: "\<exists>w' c. run_ops ?J ?w ?c [DoAppend block_b, DoCommit, DoAppend block_c] = Inr (w', c)
       \<and> containsNewBlocks c \<and> elems (Chain c) = [block_c]"
    using h1 by auto
  from flag_in_reachable_states [OF h2]
  have g2: "\<exists>w' c. run_ops ?J ?w ?c [DoAppend block_b, DoCommit] = Inr (w', c)
       \<and> \<not> containsNewBlocks c \<and> elems (Chain c) = []"
    using h2 by auto
  show ?thesis
    by (intro conjI g1 g2)
qed


subsection \<open>Chain.Init\<close>



subsection \<open>Block.GetNormalizedTimeStringified\<close>

text \<open>
  C9. The claim is that the result is the one-character string whose character is the code
  point numbered by the normalized time converted to a rune. The function is documented to
  return the normalized time of the block, as a string by its name; it converts the \<open>int64\<close>
  to a rune and the rune to a string. For the nanosecond timestamp 1600000000000000000 the
  rune is -660602880, which numbers no code point, and the result is the three bytes of
  U+FFFD: not the character the claim names, and nothing that tells the time, whose decimal
  numeral has nineteen digits.
\<close>

theorem GetNormalizedTimeStringified_timestamp:
  "NormalizedTime block_a = 1600000000000000000
   \<and> sint (ucast (NormalizedTime block_a) :: 32 word) = - 660602880
   \<and> GetNormalizedTimeStringified block_a = [CHR 0xEF, CHR 0xBF, CHR 0xBD]
   \<and> utf8_DecodeRuneInString (GetNormalizedTimeStringified block_a) = (0xFFFD, 3)
   \<and> \<not> single_rune (GetNormalizedTimeStringified block_a)
         (sint (ucast (NormalizedTime block_a) :: 32 word))
   \<and> strconv_FormatInt (sint (NormalizedTime block_a)) = ''1600000000000000000''"
proof -
  have n: "NormalizedTime block_a = 1600000000000000000"
    by (simp add: block_a_def)
  have r: "sint (ucast (NormalizedTime block_a) :: 32 word) = - 660602880"
    by (simp add: block_a_def)
  have s: "GetNormalizedTimeStringified block_a = [CHR 0xEF, CHR 0xBF, CHR 0xBD]"
    by (simp add: GetNormalizedTimeStringified_def string_of_rune_def r valid_rune_def
        utf8_EncodeRune_def char_of_eq_iff)
  have d: "utf8_DecodeRuneInString (GetNormalizedTimeStringified block_a) = (0xFFFD, 3)"
    unfolding s
    by (simp add: utf8_DecodeRuneInString_def decode_bytes_def second_lo_def second_hi_def
        cont_def)
  have c: "\<not> single_rune (GetNormalizedTimeStringified block_a)
         (sint (ucast (NormalizedTime block_a) :: 32 word))"
    unfolding r by (simp add: single_rune_def valid_rune_def)
  have f: "strconv_FormatInt (sint (NormalizedTime block_a)) = ''1600000000000000000''"
    by (simp add: block_a_def strconv_FormatInt_def digits.simps)
  show ?thesis
    by (intro conjI n r s d c f)
qed

end
